theory Spec2Isabelle
  imports Complex_Main "HOL-Library.AList" "HOL-Library.Monad_Syntax"
begin

section \<open>Entities and faults\<close>

text \<open>
  An \<open>entt::entity\<close> is an opaque integer handle. The sentinel \<open>entt::null\<close> is
  modelled by \<open>None\<close> wherever the source stores a handle that may be null.

  Reading a component through a view or the registry for an entity that does not carry it,
  and \<open>std::unordered_map::at\<close> on a missing key, do not return in the source (assertion,
  undefined behaviour, \<open>std::out_of_range\<close>). Each of them is a fault value of the model.
\<close>

type_synonym entity = nat
type_synonym id_type = nat

datatype fault =
  Out_of_range         \<comment> \<open>\<open>unordered_map::at\<close> on a missing key\<close>
| Missing_component    \<comment> \<open>\<open>get\<close> on an entity that lacks the component\<close>
| Null_entity          \<comment> \<open>a component read through \<open>entt::null\<close>\<close>
| No_mapping           \<comment> \<open>\<open>entity_map::locrem\<close> without a mapping\<close>

section \<open>\<open>island_delta_builder\<close>\<close>

text \<open>
  \<open>entity_component_map<Component>\<close> and \<open>entity_component_set<Component>\<close> derive from
  \<open>entity_component_map_base\<close>; the builder uses \<open>insert\<close>, \<open>empty\<close> and \<open>clear\<close> of
  them. Component values are of one type \<open>'c\<close>, the component kind is the \<open>entt::id_type\<close>
  key under which the container is stored.
\<close>

datatype 'c entity_component_container =
  Component_map "(entity \<times> 'c) list"
| Component_set "entity list"

fun container_empty :: "'c entity_component_container \<Rightarrow> bool" where
  "container_empty (Component_map m) = (m = [])"
| "container_empty (Component_set s) = (s = [])"

fun container_clear :: "'c entity_component_container \<Rightarrow> 'c entity_component_container" where
  "container_clear (Component_map m) = Component_map []"
| "container_clear (Component_set s) = Component_set []"

fun map_insert :: "entity \<Rightarrow> 'c \<Rightarrow> 'c entity_component_container \<Rightarrow> 'c entity_component_container" where
  "map_insert e c (Component_map m) = Component_map (AList.update e c m)"
| "map_insert e c (Component_set s) = Component_set (List.insert e s)"

fun set_insert :: "entity \<Rightarrow> 'c entity_component_container \<Rightarrow> 'c entity_component_container" where
  "set_insert e (Component_set s) = Component_set (List.insert e s)"
| "set_insert e (Component_map m) = Component_map m"

type_synonym 'c map_of_component_map = "(id_type \<times> 'c entity_component_container) list"

text \<open>
  Modelled from the spec: \<open>island_delta\<close> (edyn/parallel/island_delta.hpp) is not under
  src and the spec does not describe it; the record holds the members the builder
  names (\<open>m_entity_map\<close>, \<open>m_created_entities\<close>, \<open>m_destroyed_entities\<close> and the three
  per-component tables). \<open>prepare_created<Component>()\<close> registers the component kind in
  the current delta (the builder's comment: it "needs to be initialized again in the
  current delta"), and \<open>load\<close> copies a builder container into the delta's entry.
\<close>

record 'c island_delta =
  d_entity_map :: "(entity \<times> entity) list"
  d_created_entities :: "entity list"
  d_destroyed_entities :: "entity list"
  d_created_components :: "'c map_of_component_map"
  d_updated_components :: "'c map_of_component_map"
  d_destroyed_components :: "'c map_of_component_map"

definition empty_delta :: "'c island_delta" where
  "empty_delta = \<lparr> d_entity_map = [], d_created_entities = [], d_destroyed_entities = [],
     d_created_components = [], d_updated_components = [], d_destroyed_components = [] \<rparr>"

definition prepare_created :: "id_type \<Rightarrow> 'c island_delta \<Rightarrow> 'c island_delta" where
  "prepare_created i d = d\<lparr> d_created_components := AList.update i (Component_map []) (d_created_components d) \<rparr>"

definition prepare_updated :: "id_type \<Rightarrow> 'c island_delta \<Rightarrow> 'c island_delta" where
  "prepare_updated i d = d\<lparr> d_updated_components := AList.update i (Component_map []) (d_updated_components d) \<rparr>"

definition prepare_destroyed :: "id_type \<Rightarrow> 'c island_delta \<Rightarrow> 'c island_delta" where
  "prepare_destroyed i d = d\<lparr> d_destroyed_components := AList.update i (Component_set []) (d_destroyed_components d) \<rparr>"

record 'c island_delta_builder =
  m_entity_map :: "(entity \<times> entity) list"
  m_created_components :: "'c map_of_component_map"
  m_updated_components :: "'c map_of_component_map"
  m_destroyed_components :: "'c map_of_component_map"
  m_delta :: "'c island_delta"

text \<open>The constructor \<open>island_delta_builder(entity_map &map)\<close>.\<close>

definition new_builder :: "(entity \<times> entity) list \<Rightarrow> 'c island_delta_builder" where
  "new_builder em = \<lparr> m_entity_map = em, m_created_components = [], m_updated_components = [],
     m_destroyed_components = [], m_delta = empty_delta \<rparr>"

text \<open>\<open>_created<Component>(entity, component)\<close>, with \<open>i\<close> the type index of \<open>Component\<close>.\<close>

definition created_component :: "id_type \<Rightarrow> entity \<Rightarrow> 'c \<Rightarrow> 'c island_delta_builder \<Rightarrow> 'c island_delta_builder" where
  "created_component i e c b =
     (case map_of (m_created_components b) i of
        None \<Rightarrow>
          b\<lparr> m_created_components := (i, map_insert e c (Component_map [])) # m_created_components b,
             m_delta := prepare_created i (m_delta b) \<rparr>
      | Some m \<Rightarrow>
          (let b1 = (if container_empty m then b\<lparr> m_delta := prepare_created i (m_delta b) \<rparr> else b)
           in b1\<lparr> m_created_components := AList.update i (map_insert e c m) (m_created_components b1) \<rparr>))"

definition updated_component :: "id_type \<Rightarrow> entity \<Rightarrow> 'c \<Rightarrow> 'c island_delta_builder \<Rightarrow> 'c island_delta_builder" where
  "updated_component i e c b =
     (case map_of (m_updated_components b) i of
        None \<Rightarrow>
          b\<lparr> m_updated_components := (i, map_insert e c (Component_map [])) # m_updated_components b,
             m_delta := prepare_updated i (m_delta b) \<rparr>
      | Some m \<Rightarrow>
          (let b1 = (if container_empty m then b\<lparr> m_delta := prepare_updated i (m_delta b) \<rparr> else b)
           in b1\<lparr> m_updated_components := AList.update i (map_insert e c m) (m_updated_components b1) \<rparr>))"

definition destroyed_component :: "id_type \<Rightarrow> entity \<Rightarrow> 'c island_delta_builder \<Rightarrow> 'c island_delta_builder" where
  "destroyed_component i e b =
     (case map_of (m_destroyed_components b) i of
        None \<Rightarrow>
          b\<lparr> m_destroyed_components := (i, set_insert e (Component_set [])) # m_destroyed_components b,
             m_delta := prepare_destroyed i (m_delta b) \<rparr>
      | Some s \<Rightarrow>
          (let b1 = (if container_empty s then b\<lparr> m_delta := prepare_destroyed i (m_delta b) \<rparr> else b)
           in b1\<lparr> m_destroyed_components := AList.update i (set_insert e s) (m_destroyed_components b1) \<rparr>))"

text \<open>\<open>created(entity)\<close> and \<open>destroyed<>(entity)\<close> with an empty component pack.\<close>

definition created_entity :: "entity \<Rightarrow> 'c island_delta_builder \<Rightarrow> 'c island_delta_builder" where
  "created_entity e b = b\<lparr> m_delta := (m_delta b)\<lparr> d_created_entities := d_created_entities (m_delta b) @ [e] \<rparr> \<rparr>"

definition destroyed_entity :: "entity \<Rightarrow> 'c island_delta_builder \<Rightarrow> 'c island_delta_builder" where
  "destroyed_entity e b = b\<lparr> m_delta := (m_delta b)\<lparr> d_destroyed_entities := d_destroyed_entities (m_delta b) @ [e] \<rparr> \<rparr>"

definition insert_entity_mapping :: "entity \<Rightarrow> 'c island_delta_builder \<Rightarrow> fault + 'c island_delta_builder" where
  "insert_entity_mapping local_entity b =
     (case map_of (m_entity_map b) local_entity of
        None \<Rightarrow> Inl No_mapping
      | Some remote_entity \<Rightarrow>
          Inr (b\<lparr> m_delta := (m_delta b)\<lparr> d_entity_map := AList.update local_entity remote_entity (d_entity_map (m_delta b)) \<rparr> \<rparr>))"

text \<open>\<open>island_delta_builder::empty\<close>.\<close>

definition builder_empty :: "'c island_delta_builder \<Rightarrow> bool" where
  "builder_empty b =
     (if d_entity_map (m_delta b) \<noteq> [] \<or> d_created_entities (m_delta b) \<noteq> [] \<or>
         d_destroyed_entities (m_delta b) \<noteq> [] then False
      else if list_ex (\<lambda>pair. \<not> container_empty (snd pair)) (m_created_components b) then False
      else if list_ex (\<lambda>pair. \<not> container_empty (snd pair)) (m_updated_components b) then False
      else if list_ex (\<lambda>pair. \<not> container_empty (snd pair)) (m_destroyed_components b) then False
      else True)"

text \<open>
  The three loading loops of \<open>finish\<close>: for each entry of the delta's table,
  \<open>pair.second->load(*m_xxx_components.at(pair.first))\<close>. \<open>at\<close> throws when the builder has
  no container for the key.
\<close>

fun load_components :: "'c map_of_component_map \<Rightarrow> 'c map_of_component_map \<Rightarrow> fault + 'c map_of_component_map" where
  "load_components [] local = Inr []"
| "load_components ((i, target) # rest) local =
     (case map_of local i of
        None \<Rightarrow> Inl Out_of_range
      | Some source \<Rightarrow>
          (case load_components rest local of
             Inl f \<Rightarrow> Inl f
           | Inr rest' \<Rightarrow> Inr ((i, source) # rest')))"

definition clear_components :: "'c map_of_component_map \<Rightarrow> 'c map_of_component_map" where
  "clear_components local = map (\<lambda>pair. (fst pair, container_clear (snd pair))) local"

text \<open>
  \<open>island_delta_builder::finish\<close>. It returns the delta and leaves the builder behind.
  \<open>return std::move(m_delta)\<close> leaves \<open>m_delta\<close> moved-from; following the comment of the
  source ("effectively clearing out the contents of \<open>m_delta\<close> making it ready for the
  next set of updates") the moved-from delta is the empty one.
\<close>

definition finish :: "'c island_delta_builder \<Rightarrow> fault + ('c island_delta \<times> 'c island_delta_builder)" where
  "finish b =
     (case load_components (d_created_components (m_delta b)) (m_created_components b) of
        Inl f \<Rightarrow> Inl f
      | Inr cr \<Rightarrow>
     (case load_components (d_updated_components (m_delta b)) (m_updated_components b) of
        Inl f \<Rightarrow> Inl f
      | Inr up \<Rightarrow>
     (case load_components (d_destroyed_components (m_delta b)) (m_destroyed_components b) of
        Inl f \<Rightarrow> Inl f
      | Inr de \<Rightarrow>
          Inr ((m_delta b)\<lparr> d_created_components := cr, d_updated_components := up,
                            d_destroyed_components := de \<rparr>,
               b\<lparr> m_created_components := clear_components (m_created_components b),
                  m_updated_components := clear_components (m_updated_components b),
                  m_destroyed_components := clear_components (m_destroyed_components b),
                  m_delta := empty_delta \<rparr>))))"

text \<open>
  The builders a program can hold: the constructor's, and what the public operations
  make of one.
\<close>

inductive reachable_builder :: "'c island_delta_builder \<Rightarrow> bool" where
  rb_new: "reachable_builder (new_builder em)"
| rb_created: "reachable_builder b \<Longrightarrow> reachable_builder (created_component i e c b)"
| rb_updated: "reachable_builder b \<Longrightarrow> reachable_builder (updated_component i e c b)"
| rb_destroyed: "reachable_builder b \<Longrightarrow> reachable_builder (destroyed_component i e b)"
| rb_created_entity: "reachable_builder b \<Longrightarrow> reachable_builder (created_entity e b)"
| rb_destroyed_entity: "reachable_builder b \<Longrightarrow> reachable_builder (destroyed_entity e b)"
| rb_mapping: "reachable_builder b \<Longrightarrow> insert_entity_mapping e b = Inr b' \<Longrightarrow> reachable_builder b'"
| rb_finish: "reachable_builder b \<Longrightarrow> finish b = Inr (d, b') \<Longrightarrow> reachable_builder b'"

section \<open>Properties of \<open>island_delta_builder\<close>\<close>

lemma clear_components_all_empty:
  "\<not> list_ex (\<lambda>pair. \<not> container_empty (snd pair)) (clear_components local)"
proof (induction local)
  case Nil
  show ?case by (simp add: clear_components_def)
next
  case (Cons p ps)
  have "container_empty (container_clear (snd p))" by (cases "snd p") simp_all
  with Cons show ?case by (simp add: clear_components_def)
qed

lemma finish_builder:
  assumes "finish b = Inr (d, b')"
  shows "b' = b\<lparr> m_created_components := clear_components (m_created_components b),
                 m_updated_components := clear_components (m_updated_components b),
                 m_destroyed_components := clear_components (m_destroyed_components b),
                 m_delta := empty_delta \<rparr>"
  using assms by (auto simp: finish_def split: sum.splits)

text \<open>
  The keys prepared in the current delta all have a container in the builder; this is
  what makes \<open>at\<close> in \<open>finish\<close> succeed.
\<close>

definition prepared_ok :: "'c island_delta_builder \<Rightarrow> bool" where
  "prepared_ok b =
     (fst ` set (d_created_components (m_delta b)) \<subseteq> fst ` set (m_created_components b) \<and>
      fst ` set (d_updated_components (m_delta b)) \<subseteq> fst ` set (m_updated_components b) \<and>
      fst ` set (d_destroyed_components (m_delta b)) \<subseteq> fst ` set (m_destroyed_components b))"

lemma load_components_total:
  "fst ` set target \<subseteq> fst ` set local \<Longrightarrow> \<exists>r. load_components target local = Inr r"
proof (induction target)
  case Nil
  show ?case by simp
next
  case (Cons p ps)
  obtain i t where p: "p = (i, t)" by (cases p)
  from Cons.prems p have "i \<in> fst ` set local" by simp
  then obtain s where s: "map_of local i = Some s"
    by (metis domD dom_map_of_conv_image_fst)
  from Cons obtain r where "load_components ps local = Inr r" by auto
  with p s show ?case by simp
qed

lemma fst_set_update: "fst ` set (AList.update k v al) = insert k (fst ` set al)"
  by (induction al) auto

lemma prepared_ok_created: "prepared_ok b \<Longrightarrow> prepared_ok (created_component i e c b)"
  unfolding prepared_ok_def created_component_def prepare_created_def
  by (auto simp: fst_set_update Let_def split: option.splits dest: map_of_SomeD)

lemma prepared_ok_updated: "prepared_ok b \<Longrightarrow> prepared_ok (updated_component i e c b)"
  unfolding prepared_ok_def updated_component_def prepare_updated_def
  by (auto simp: fst_set_update Let_def split: option.splits dest: map_of_SomeD)

lemma prepared_ok_destroyed: "prepared_ok b \<Longrightarrow> prepared_ok (destroyed_component i e b)"
  unfolding prepared_ok_def destroyed_component_def prepare_destroyed_def
  by (auto simp: fst_set_update Let_def split: option.splits dest: map_of_SomeD)

lemma reachable_prepared_ok: "reachable_builder b \<Longrightarrow> prepared_ok b"
proof (induction rule: reachable_builder.induct)
  case (rb_new em)
  show ?case by (simp add: prepared_ok_def new_builder_def empty_delta_def)
next
  case (rb_created b i e c)
  then show ?case by (simp add: prepared_ok_created)
next
  case (rb_updated b i e c)
  then show ?case by (simp add: prepared_ok_updated)
next
  case (rb_destroyed b i e)
  then show ?case by (simp add: prepared_ok_destroyed)
next
  case (rb_created_entity b e)
  then show ?case by (simp add: prepared_ok_def created_entity_def)
next
  case (rb_destroyed_entity b e)
  then show ?case by (simp add: prepared_ok_def destroyed_entity_def)
next
  case (rb_mapping b e b')
  from rb_mapping.hyps(2) obtain r
    where "b' = b\<lparr> m_delta := (m_delta b)\<lparr> d_entity_map := r \<rparr> \<rparr>"
    by (auto simp: insert_entity_mapping_def split: option.splits)
  with rb_mapping.IH show ?case by (simp add: prepared_ok_def)
next
  case (rb_finish b d b')
  from finish_builder [OF rb_finish.hyps(2)]
  show ?case by (simp add: prepared_ok_def empty_delta_def)
qed

lemma finish_returns_if_prepared:
  assumes "prepared_ok b"
  shows "\<exists>d b'. finish b = Inr (d, b')"
proof -
  from assms have c: "fst ` set (d_created_components (m_delta b)) \<subseteq> fst ` set (m_created_components b)"
    and u: "fst ` set (d_updated_components (m_delta b)) \<subseteq> fst ` set (m_updated_components b)"
    and d: "fst ` set (d_destroyed_components (m_delta b)) \<subseteq> fst ` set (m_destroyed_components b)"
    by (simp_all add: prepared_ok_def)
  from load_components_total [OF c] obtain cr
    where cr: "load_components (d_created_components (m_delta b)) (m_created_components b) = Inr cr" ..
  from load_components_total [OF u] obtain up
    where up: "load_components (d_updated_components (m_delta b)) (m_updated_components b) = Inr up" ..
  from load_components_total [OF d] obtain de
    where de: "load_components (d_destroyed_components (m_delta b)) (m_destroyed_components b) = Inr de" ..
  show ?thesis by (simp add: finish_def cr up de)
qed

text \<open>
  C10. For every builder obtained from the constructor by the builder's operations,
  \<open>finish()\<close> returns, and immediately afterwards \<open>empty()\<close> is true: the delta has been
  moved out (entity map, created and destroyed entity lists reset) and every
  per-component created, updated and destroyed container of the builder is cleared.
\<close>

theorem finish_then_empty:
  assumes "reachable_builder b"
  shows "\<exists>d b'. finish b = Inr (d, b') \<and> builder_empty b' \<and>
           m_delta b' = empty_delta \<and>
           m_created_components b' = clear_components (m_created_components b) \<and>
           m_updated_components b' = clear_components (m_updated_components b) \<and>
           m_destroyed_components b' = clear_components (m_destroyed_components b)"
proof -
  from assms have "prepared_ok b" by (rule reachable_prepared_ok)
  then obtain d b' where f: "finish b = Inr (d, b')"
    using finish_returns_if_prepared by blast
  note b' = finish_builder [OF f]
  have "builder_empty b'"
    by (simp add: b' builder_empty_def empty_delta_def clear_components_all_empty)
  with f b' show ?thesis by simp
qed

theorem finish_then_empty_witness:
  "reachable_builder (created_entity 7 (created_component 1 5 (0::nat) (new_builder []))) \<and>
   \<not> builder_empty (created_entity 7 (created_component 1 5 (0::nat) (new_builder []))) \<and>
   (\<exists>d b'. finish (created_entity 7 (created_component 1 5 (0::nat) (new_builder []))) = Inr (d, b') \<and>
      builder_empty b')"
proof -
  have r: "reachable_builder (created_entity 7 (created_component 1 5 (0::nat) (new_builder [])))"
    by (intro reachable_builder.intros)
  have n: "\<not> builder_empty (created_entity 7 (created_component 1 5 (0::nat) (new_builder [])))"
    by (simp add: builder_empty_def created_entity_def created_component_def new_builder_def
        empty_delta_def prepare_created_def)
  from finish_then_empty [OF r] r n show ?thesis by blast
qed

section \<open>Scalars, vectors and the external collaborators\<close>

text \<open>
  The source's \<open>scalar\<close> is a floating-point number; the model computes with \<open>real\<close>, so
  rounding, infinities and NaN are outside it. A quotient by zero is not a real number:
  \<open>scalar_div\<close> gives \<open>None\<close> there, and so does every function that would compute with it.

  Modelled from the spec: \<open>vector3\<close> and its arithmetic (edyn/math/vector3.hpp) are not
  under src; sum, difference, scaling, dot product and squared length are the usual
  component-wise operations that the spec's formulas \<open>dot(n, pA - pB)\<close> and
  \<open>\<parallel>dp\<parallel>\<^sup>2\<close> denote.
\<close>

record vector3 =
  vx :: real
  vy :: real
  vz :: real

definition vec_add :: "vector3 \<Rightarrow> vector3 \<Rightarrow> vector3" where
  "vec_add a b = \<lparr> vx = vx a + vx b, vy = vy a + vy b, vz = vz a + vz b \<rparr>"

definition vec_sub :: "vector3 \<Rightarrow> vector3 \<Rightarrow> vector3" where
  "vec_sub a b = \<lparr> vx = vx a - vx b, vy = vy a - vy b, vz = vz a - vz b \<rparr>"

definition vec_scale :: "real \<Rightarrow> vector3 \<Rightarrow> vector3" where
  "vec_scale s a = \<lparr> vx = s * vx a, vy = s * vy a, vz = s * vz a \<rparr>"

definition dot :: "vector3 \<Rightarrow> vector3 \<Rightarrow> real" where
  "dot a b = vx a * vx b + vy a * vy b + vz a * vz b"

definition length_sqr :: "vector3 \<Rightarrow> real" where
  "length_sqr a = dot a a"

definition vector3_one :: vector3 where
  "vector3_one = \<lparr> vx = 1, vy = 1, vz = 1 \<rparr>"

definition scalar_div :: "real \<Rightarrow> real \<Rightarrow> real option" where
  "scalar_div a b = (if b = 0 then None else Some (a / b))"

record quaternion =
  qx :: real
  qy :: real
  qz :: real
  qw :: real

record AABB =
  aabb_min :: vector3
  aabb_max :: vector3

record material =
  mat_restitution :: real
  mat_friction :: real
  mat_stiffness :: real
  mat_damping :: real

text \<open>
  \<open>collision_result::collision_point\<close> and \<open>contact_point\<close>. A contact point holds the
  four fields that \<open>merge_point\<close> copies from a collision point, and four more.
\<close>

record collision_point =
  pivotA :: vector3
  pivotB :: vector3
  normalB :: vector3
  distance :: real

record contact_point = collision_point +
  cp_body :: "entity \<times> entity"
  friction :: real
  restitution :: real
  lifetime :: nat

record collision_result =
  res_num_points :: nat
  res_point :: "collision_point list"

text \<open>
  Functions and constants that the source calls and that are not under src: they are
  parameters of the model, collected in one record. \<open>insert_index\<close> gets the written
  prefix of the arrays \<open>pivots\<close> and \<open>distances\<close> (the entries below \<open>num_points\<close>);
  \<open>shape_aabb\<close> is the member \<open>aabb(pos, orn)\<close> of the shape variants.
\<close>

record 's env =
  rotate_vec :: "quaternion \<Rightarrow> vector3 \<Rightarrow> vector3"
  collide :: "'s \<Rightarrow> vector3 \<Rightarrow> quaternion \<Rightarrow> 's \<Rightarrow> vector3 \<Rightarrow> quaternion \<Rightarrow> real \<Rightarrow> collision_result"
  insert_index :: "vector3 list \<Rightarrow> real list \<Rightarrow> nat \<Rightarrow> vector3 \<Rightarrow> real \<Rightarrow> nat"
  shape_aabb :: "'s \<Rightarrow> vector3 \<Rightarrow> quaternion \<Rightarrow> AABB"
  inset :: "AABB \<Rightarrow> vector3 \<Rightarrow> AABB"
  intersect :: "AABB \<Rightarrow> AABB \<Rightarrow> bool"
  contact_breaking_threshold :: real
  contact_caching_threshold :: real
  large_scalar :: real

text \<open>
  Modelled from the spec: \<open>max_contacts\<close> (edyn/math/constants.hpp is not under src);
  the spec's \<open>MAX_CONTACTS\<close> (=4).
\<close>

definition max_contacts :: nat where
  "max_contacts = 4"

section \<open>The registry\<close>

text \<open>
  \<open>contact_manifold\<close>: the body pair and the array of \<open>max_contacts\<close> point handles.

  Modelled from the spec: \<open>contact_manifold::num_points()\<close> (edyn/collision/contact_manifold.hpp
  is not under src). The source never stores a count: \<open>create_contact_point\<close> writes
  \<open>point[idx]\<close> and \<open>prune\<close> writes \<open>entt::null\<close>, and \<open>num_points()\<close> changes with them; it
  is the number of slots that are not the sentinel.
\<close>

record contact_manifold =
  body :: "entity \<times> entity"
  point :: "entity option list"

definition num_points :: "contact_manifold \<Rightarrow> nat" where
  "num_points m = length (filter (\<lambda>p. p \<noteq> None) (point m))"

record contact_constraint =
  stiffness :: real
  damping :: real

text \<open>
  \<open>constraint\<close>: the bodies, the constraint variant (here always a contact constraint) and
  the row handles; \<open>row\<close> is the list of the \<open>num_rows()\<close> handles that are not null.
\<close>

record constraint =
  con_body :: "entity \<times> entity"
  var :: contact_constraint
  row :: "entity list"

record constraint_row_data =
  impulse :: real

text \<open>
  Modelled from the spec: the \<open>dirty\<close> component (edyn/comp/dirty.hpp is not under src):
  "an append-only per-entity set of (component_id, kind \<in> {created, updated, destroyed})
  tuples", and the flag that \<open>set_new()\<close> raises.
\<close>

datatype component_kind = Contact_point | Contact_manifold | Island_node_parent | Constraint

datatype change_kind = Created | Updated | Destroyed

record dirty =
  is_new_entity :: bool
  changes :: "(component_kind \<times> change_kind) set"

definition dirty_default :: dirty where
  "dirty_default = \<lparr> is_new_entity = False, changes = {} \<rparr>"

text \<open>
  Modelled from the spec: the entity store (entt's registry is external: "an opaque keyed
  store of components"). One table per component type; the manifolds and the contact
  points are kept in storage order because the source iterates over them. \<open>create\<close>
  returns a handle that no entity has had, and \<open>destroy\<close> removes every component of an
  entity.
\<close>

record 's registry =
  next_entity :: entity
  positions :: "entity \<rightharpoonup> vector3"
  orientations :: "entity \<rightharpoonup> quaternion"
  aabbs :: "entity \<rightharpoonup> AABB"
  shapes :: "entity \<rightharpoonup> 's"
  materials :: "entity \<rightharpoonup> material"
  manifolds :: "(entity \<times> contact_manifold) list"
  contact_points :: "(entity \<times> contact_point) list"
  constraints :: "entity \<rightharpoonup> constraint"
  constraint_rows :: "entity \<rightharpoonup> constraint_row_data"
  dirties :: "entity \<rightharpoonup> dirty"
  node_parents :: "entity \<rightharpoonup> entity list"

definition create :: "'s registry \<Rightarrow> entity \<times> 's registry" where
  "create r = (next_entity r, r\<lparr> next_entity := Suc (next_entity r) \<rparr>)"

definition destroy :: "entity \<Rightarrow> 's registry \<Rightarrow> 's registry" where
  "destroy e r = r\<lparr>
     positions := (positions r)(e := None),
     orientations := (orientations r)(e := None),
     aabbs := (aabbs r)(e := None),
     shapes := (shapes r)(e := None),
     materials := (materials r)(e := None),
     manifolds := AList.delete e (manifolds r),
     contact_points := AList.delete e (contact_points r),
     constraints := (constraints r)(e := None),
     constraint_rows := (constraint_rows r)(e := None),
     dirties := (dirties r)(e := None),
     node_parents := (node_parents r)(e := None) \<rparr>"

text \<open>\<open>registry.get_or_emplace<dirty>(e)\<close> followed by a change of the component.\<close>

definition mark_dirty :: "entity \<Rightarrow> (dirty \<Rightarrow> dirty) \<Rightarrow> 's registry \<Rightarrow> 's registry" where
  "mark_dirty e f r =
     r\<lparr> dirties := (dirties r)(e \<mapsto> f (case dirties r e of None \<Rightarrow> dirty_default | Some d \<Rightarrow> d)) \<rparr>"

definition set_new :: "dirty \<Rightarrow> dirty" where
  "set_new d = d\<lparr> is_new_entity := True \<rparr>"

definition created :: "component_kind list \<Rightarrow> dirty \<Rightarrow> dirty" where
  "created ks d = d\<lparr> changes := changes d \<union> (\<lambda>k. (k, Created)) ` set ks \<rparr>"

definition updated :: "component_kind list \<Rightarrow> dirty \<Rightarrow> dirty" where
  "updated ks d = d\<lparr> changes := changes d \<union> (\<lambda>k. (k, Updated)) ` set ks \<rparr>"

text \<open>
  The views. \<open>cp_view\<close> is \<open>view<contact_point, constraint>\<close>: \<open>get\<close> through it needs
  both components on the entity, and a handle that is not null. \<open>tr_view\<close> is
  \<open>view<position, orientation>\<close> and \<open>body_view\<close> is
  \<open>view<AABB, shape, position, orientation>\<close>.
\<close>

definition cp_view_get :: "'s registry \<Rightarrow> entity option \<Rightarrow> contact_point option" where
  "cp_view_get r h =
     (case h of
        None \<Rightarrow> None
      | Some e \<Rightarrow> (case constraints r e of None \<Rightarrow> None | Some con \<Rightarrow> map_of (contact_points r) e))"

definition cp_view_get_constraint :: "'s registry \<Rightarrow> entity \<Rightarrow> constraint option" where
  "cp_view_get_constraint r e =
     (case map_of (contact_points r) e of None \<Rightarrow> None | Some cp \<Rightarrow> constraints r e)"

definition tr_view_get :: "'s registry \<Rightarrow> entity \<Rightarrow> (vector3 \<times> quaternion) option" where
  "tr_view_get r e =
     (case positions r e of
        None \<Rightarrow> None
      | Some pos \<Rightarrow> (case orientations r e of None \<Rightarrow> None | Some orn \<Rightarrow> Some (pos, orn)))"

definition body_view_get :: "'s registry \<Rightarrow> entity \<Rightarrow> (AABB \<times> 's \<times> vector3 \<times> quaternion) option" where
  "body_view_get r e =
     (case aabbs r e of None \<Rightarrow> None | Some bb \<Rightarrow>
     (case shapes r e of None \<Rightarrow> None | Some sh \<Rightarrow>
     (case positions r e of None \<Rightarrow> None | Some pos \<Rightarrow>
     (case orientations r e of None \<Rightarrow> None | Some orn \<Rightarrow> Some (bb, sh, pos, orn)))))"

definition put_contact_point :: "entity \<Rightarrow> contact_point \<Rightarrow> 's registry \<Rightarrow> 's registry" where
  "put_contact_point e cp r = r\<lparr> contact_points := AList.update e cp (contact_points r) \<rparr>"

definition put_manifold :: "entity \<Rightarrow> contact_manifold \<Rightarrow> 's registry \<Rightarrow> 's registry" where
  "put_manifold e m r = r\<lparr> manifolds := AList.update e m (manifolds r) \<rparr>"

text \<open>
  The \<open>narrowphase\<close> object: the registry it points to and the two vectors that buffer
  the side effects of the parallel path, one slot per manifold. A slot holds \<open>count\<close>
  entries of an array of \<open>max_contacts\<close>; the model keeps the entries written so far.
\<close>

record 's narrowphase =
  m_registry :: "'s registry"
  m_cp_construction_infos :: "collision_point list list"
  m_cp_destruction_infos :: "entity list list"

definition on_registry :: "('s registry \<Rightarrow> 's registry option) \<Rightarrow> 's narrowphase \<Rightarrow> 's narrowphase option" where
  "on_registry f np = (case f (m_registry np) of None \<Rightarrow> None | Some r \<Rightarrow> Some (np\<lparr> m_registry := r \<rparr>))"

section \<open>The narrowphase\<close>

text \<open>\<open>update_contact_distances\<close>: the distance of every persisted contact point.\<close>

fun update_distances :: "'s env \<Rightarrow> 's registry \<Rightarrow> (entity \<times> contact_point) list \<Rightarrow> (entity \<times> contact_point) list option" where
  "update_distances env r [] = Some []"
| "update_distances env r ((e, cp) # rest) =
     (case tr_view_get r (fst (cp_body cp)) of None \<Rightarrow> None | Some (posA, ornA) \<Rightarrow>
     (case tr_view_get r (snd (cp_body cp)) of None \<Rightarrow> None | Some (posB, ornB) \<Rightarrow>
     (case update_distances env r rest of None \<Rightarrow> None | Some rest' \<Rightarrow>
        (let pivotA_world = vec_add posA (rotate_vec env ornA (pivotA cp));
             pivotB_world = vec_add posB (rotate_vec env ornB (pivotB cp));
             normal_world = rotate_vec env ornB (normalB cp)
         in Some ((e, cp\<lparr> distance := dot normal_world (vec_sub pivotA_world pivotB_world) \<rparr>) # rest')))))"

definition update_contact_distances :: "'s env \<Rightarrow> 's registry \<Rightarrow> 's registry option" where
  "update_contact_distances env r =
     (case update_distances env r (contact_points r) of
        None \<Rightarrow> None
      | Some cps \<Rightarrow> Some (r\<lparr> contact_points := cps \<rparr>))"

definition merge_point :: "collision_point \<Rightarrow> contact_point \<Rightarrow> contact_point" where
  "merge_point rp cp =
     cp\<lparr> pivotA := pivotA rp, pivotB := pivotB rp, normalB := normalB rp, distance := distance rp \<rparr>"

text \<open>
  Modelled from the spec: \<open>make_constraint\<close> (edyn/util/constraint_util.hpp is not under
  src) attaches to the contact entity the constraint between the two bodies that holds
  the given contact constraint ("create material-derived constraint"); its rows are made
  later by the solver's setup.
\<close>

definition make_constraint :: "entity \<Rightarrow> contact_constraint \<Rightarrow> entity \<Rightarrow> entity \<Rightarrow> 's registry \<Rightarrow> 's registry" where
  "make_constraint contact_entity contact b0 b1 r =
     r\<lparr> constraints := (constraints r)(contact_entity \<mapsto> \<lparr> con_body = (b0, b1), var = contact, row = [] \<rparr>) \<rparr>"

text \<open>
  \<open>create_contact_constraint\<close>. The contact point \<open>cp\<close> is the component of
  \<open>contact_entity\<close> in the registry, which the function changes in place.
\<close>

definition series :: "real \<Rightarrow> real \<Rightarrow> real option" where
  "series a b = do {
     ia \<leftarrow> scalar_div 1 a;
     ib \<leftarrow> scalar_div 1 b;
     scalar_div 1 (ia + ib) }"

definition create_contact_constraint :: "'s env \<Rightarrow> entity \<Rightarrow> entity \<Rightarrow> 's registry \<Rightarrow> 's registry option" where
  "create_contact_constraint env manifold_entity contact_entity r = do {
     cp \<leftarrow> map_of (contact_points r) contact_entity;
     materialA \<leftarrow> materials r (fst (cp_body cp));
     materialB \<leftarrow> materials r (snd (cp_body cp));
     let cp1 = cp\<lparr> restitution := mat_restitution materialA * mat_restitution materialB,
                    friction := mat_friction materialA * mat_friction materialB \<rparr>;
     let r1 = put_contact_point contact_entity cp1 r;
     contact \<leftarrow>
       (if mat_stiffness materialA < large_scalar env \<or> mat_stiffness materialB < large_scalar env
        then do {
          k \<leftarrow> series (mat_stiffness materialA) (mat_stiffness materialB);
          c \<leftarrow> series (mat_damping materialA) (mat_damping materialB);
          Some \<lparr> stiffness = k, damping = c \<rparr> }
        else Some \<lparr> stiffness = large_scalar env, damping = large_scalar env \<rparr>);
     Some (make_constraint contact_entity contact (fst (cp_body cp)) (snd (cp_body cp)) r1) }"

text \<open>\<open>find_nearest_contact\<close>: the loop over the indices below \<open>num_points\<close>, then the function.\<close>

fun find_nearest_loop :: "'s registry \<Rightarrow> contact_manifold \<Rightarrow> collision_point \<Rightarrow> nat list \<Rightarrow> real \<times> nat \<Rightarrow> (real \<times> nat) option" where
  "find_nearest_loop r manifold coll_pt [] acc = Some acc"
| "find_nearest_loop r manifold coll_pt (i # rest) (shortest_dist, nearest_idx) =
     (case cp_view_get r (point manifold ! i) of
        None \<Rightarrow> None
      | Some cp \<Rightarrow>
          (let dA = length_sqr (vec_sub (pivotA coll_pt) (pivotA cp));
               dB = length_sqr (vec_sub (pivotB coll_pt) (pivotB cp));
               acc1 = (if dA < shortest_dist then (dA, i) else (shortest_dist, nearest_idx));
               acc2 = (if dB < fst acc1 then (dB, i) else acc1)
           in find_nearest_loop r manifold coll_pt rest acc2))"

definition find_nearest_contact :: "'s env \<Rightarrow> contact_manifold \<Rightarrow> collision_point \<Rightarrow> 's registry \<Rightarrow> nat option" where
  "find_nearest_contact env manifold coll_pt r =
     map_option snd
       (find_nearest_loop r manifold coll_pt [0..<num_points manifold]
          (contact_caching_threshold env * contact_caching_threshold env, num_points manifold))"

text \<open>\<open>create_contact_point\<close>.\<close>

definition create_contact_point :: "'s env \<Rightarrow> entity \<Rightarrow> collision_point \<Rightarrow> 's registry \<Rightarrow> 's registry option" where
  "create_contact_point env manifold_entity rp r = do {
     manifold \<leftarrow> map_of (manifolds r) manifold_entity;
     let idx = num_points manifold;
     if idx \<ge> max_contacts then Some r
     else do {
       let (contact_entity, r1) = create r;
       let r2 = put_manifold manifold_entity (manifold\<lparr> point := (point manifold)[idx := Some contact_entity] \<rparr>) r1;
       let cp = \<lparr> pivotA = pivotA rp, pivotB = pivotB rp, normalB = normalB rp, distance = distance rp,
                  cp_body = body manifold, friction = 0, restitution = 0, lifetime = 0 \<rparr>;
       let r3 = put_contact_point contact_entity cp r2;
       r4 \<leftarrow> (if materials r3 (fst (body manifold)) \<noteq> None \<and> materials r3 (snd (body manifold)) \<noteq> None
              then create_contact_constraint env manifold_entity contact_entity r3
              else Some r3);
       let r5 = mark_dirty contact_entity (\<lambda>d. created [Contact_point] (set_new d)) r4;
       Some (mark_dirty manifold_entity (updated [Contact_manifold]) r5) } }"

text \<open>\<open>destroy_contact_point\<close>.\<close>

definition destroy_contact_point :: "entity \<Rightarrow> entity \<Rightarrow> 's registry \<Rightarrow> 's registry option" where
  "destroy_contact_point manifold_entity contact_entity r = do {
     let r1 = destroy contact_entity r;
     children \<leftarrow> node_parents r1 manifold_entity;
     let r2 = r1\<lparr> node_parents := (node_parents r1)(manifold_entity \<mapsto> removeAll contact_entity children) \<rparr>;
     Some (mark_dirty manifold_entity (updated [Contact_manifold, Island_node_parent]) r2) }"

text \<open>
  \<open>process_collision\<close>. The index selection of its \<open>else\<close> branch (the two fillings of
  \<open>pivots\<close> and the two calls of \<open>insert_index\<close>) is \<open>select_insert_index\<close>, the body of
  its loop is \<open>process_point\<close>. The manifold is the component of \<open>manifold_entity\<close>, read
  again for every incoming point since \<open>new_point_func\<close> may change it.
\<close>

definition select_insert_index :: "'s env \<Rightarrow> 's registry \<Rightarrow> contact_manifold \<Rightarrow> collision_point \<Rightarrow> nat option" where
  "select_insert_index env r manifold rp = do {
     cps \<leftarrow> those (map (cp_view_get r) (take (num_points manifold) (point manifold)));
     let pivots = map pivotB cps;
     let distances = map distance cps;
     let idx = insert_index env pivots distances (num_points manifold) (pivotB rp) (distance rp);
     if idx \<ge> num_points manifold then do {
       cps2 \<leftarrow> those (map (cp_view_get r) (take (num_points manifold) (point manifold)));
       let pivots2 = map pivotB cps2;
       Some (insert_index env pivots2 distances (num_points manifold) (pivotB rp) (distance rp)) }
     else Some idx }"

fun zero_impulses :: "entity list \<Rightarrow> 's registry \<Rightarrow> 's registry option" where
  "zero_impulses [] r = Some r"
| "zero_impulses (e # es) r =
     (case constraint_rows r e of
        None \<Rightarrow> None
      | Some d \<Rightarrow> zero_impulses es (r\<lparr> constraint_rows := (constraint_rows r)(e \<mapsto> d\<lparr> impulse := 0 \<rparr>) \<rparr>))"

definition process_point :: "'s env \<Rightarrow> entity \<Rightarrow> (collision_point \<Rightarrow> 's narrowphase \<Rightarrow> 's narrowphase option) \<Rightarrow>
    collision_point \<Rightarrow> 's narrowphase \<Rightarrow> 's narrowphase option" where
  "process_point env manifold_entity new_point_func rp np = do {
     manifold \<leftarrow> map_of (manifolds (m_registry np)) manifold_entity;
     nearest_idx \<leftarrow> find_nearest_contact env manifold rp (m_registry np);
     if nearest_idx < num_points manifold then do {
       cp \<leftarrow> cp_view_get (m_registry np) (point manifold ! nearest_idx);
       contact_entity \<leftarrow> point manifold ! nearest_idx;
       on_registry (\<lambda>r. Some (put_contact_point contact_entity (merge_point rp (cp\<lparr> lifetime := lifetime cp + 1 \<rparr>)) r)) np }
     else do {
       idx \<leftarrow> select_insert_index env (m_registry np) manifold rp;
       if idx < max_contacts then
         if idx = num_points manifold then new_point_func rp np
         else do {
           contact_entity \<leftarrow> point manifold ! idx;
           cp \<leftarrow> cp_view_get (m_registry np) (Some contact_entity);
           con \<leftarrow> cp_view_get_constraint (m_registry np) contact_entity;
           on_registry (\<lambda>r. zero_impulses (row con)
             (put_contact_point contact_entity (merge_point rp (cp\<lparr> lifetime := 0 \<rparr>)) r)) np }
       else Some np } }"

fun process_points :: "'s env \<Rightarrow> entity \<Rightarrow> (collision_point \<Rightarrow> 's narrowphase \<Rightarrow> 's narrowphase option) \<Rightarrow>
    collision_point list \<Rightarrow> 's narrowphase \<Rightarrow> 's narrowphase option" where
  "process_points env manifold_entity new_point_func [] np = Some np"
| "process_points env manifold_entity new_point_func (rp # rest) np =
     (case process_point env manifold_entity new_point_func rp np of
        None \<Rightarrow> None
      | Some np' \<Rightarrow> process_points env manifold_entity new_point_func rest np')"

definition process_collision :: "'s env \<Rightarrow> entity \<Rightarrow> collision_result \<Rightarrow>
    (collision_point \<Rightarrow> 's narrowphase \<Rightarrow> 's narrowphase option) \<Rightarrow> 's narrowphase \<Rightarrow> 's narrowphase option" where
  "process_collision env manifold_entity result new_point_func np =
     (if res_num_points result > length (res_point result) then None
      else process_points env manifold_entity new_point_func
             (take (res_num_points result) (res_point result)) np)"

text \<open>
  \<open>prune\<close>. \<open>separating\<close> is the condition of its \<open>if\<close>, \<open>prune_step\<close> the body of its
  loop for one \<open>k\<close>; the loop runs \<open>k\<close> from \<open>num_points() - 1\<close> (read once, before
  the loop) down to 0.
\<close>

definition separating :: "'s env \<Rightarrow> vector3 \<Rightarrow> quaternion \<Rightarrow> vector3 \<Rightarrow> quaternion \<Rightarrow> contact_point \<Rightarrow> bool" where
  "separating env posA ornA posB ornB cp =
     (let pA = vec_add posA (rotate_vec env ornA (pivotA cp));
          pB = vec_add posB (rotate_vec env ornB (pivotB cp));
          n = rotate_vec env ornB (normalB cp);
          d = vec_sub pA pB;
          dn = dot d n;
          dp = vec_sub d (vec_scale dn n)
      in dn > contact_breaking_threshold env \<or>
         length_sqr dp > contact_breaking_threshold env * contact_breaking_threshold env)"

definition prune_step :: "'s env \<Rightarrow> entity \<Rightarrow> vector3 \<Rightarrow> quaternion \<Rightarrow> vector3 \<Rightarrow> quaternion \<Rightarrow>
    (entity \<Rightarrow> 's narrowphase \<Rightarrow> 's narrowphase option) \<Rightarrow> nat \<Rightarrow> 's narrowphase \<Rightarrow> 's narrowphase option" where
  "prune_step env manifold_entity posA ornA posB ornB destroy_point_func k np = do {
     manifold \<leftarrow> map_of (manifolds (m_registry np)) manifold_entity;
     cp \<leftarrow> cp_view_get (m_registry np) (point manifold ! k);
     point_entity \<leftarrow> point manifold ! k;
     if separating env posA ornA posB ornB cp then do {
       let last_idx = num_points manifold - 1;
       let pts = (if last_idx \<noteq> k then (point manifold)[k := point manifold ! last_idx] else point manifold);
       let np1 = np\<lparr> m_registry :=
                   put_manifold manifold_entity (manifold\<lparr> point := pts[last_idx := None] \<rparr>) (m_registry np) \<rparr>;
       destroy_point_func point_entity np1 }
     else Some np }"

fun prune_loop :: "'s env \<Rightarrow> entity \<Rightarrow> vector3 \<Rightarrow> quaternion \<Rightarrow> vector3 \<Rightarrow> quaternion \<Rightarrow>
    (entity \<Rightarrow> 's narrowphase \<Rightarrow> 's narrowphase option) \<Rightarrow> nat list \<Rightarrow> 's narrowphase \<Rightarrow> 's narrowphase option" where
  "prune_loop env manifold_entity posA ornA posB ornB destroy_point_func [] np = Some np"
| "prune_loop env manifold_entity posA ornA posB ornB destroy_point_func (k # ks) np =
     (case prune_step env manifold_entity posA ornA posB ornB destroy_point_func k np of
        None \<Rightarrow> None
      | Some np' \<Rightarrow> prune_loop env manifold_entity posA ornA posB ornB destroy_point_func ks np')"

definition prune :: "'s env \<Rightarrow> entity \<Rightarrow> vector3 \<Rightarrow> quaternion \<Rightarrow> vector3 \<Rightarrow> quaternion \<Rightarrow>
    (entity \<Rightarrow> 's narrowphase \<Rightarrow> 's narrowphase option) \<Rightarrow> 's narrowphase \<Rightarrow> 's narrowphase option" where
  "prune env manifold_entity posA ornA posB ornB destroy_point_func np = do {
     manifold \<leftarrow> map_of (manifolds (m_registry np)) manifold_entity;
     prune_loop env manifold_entity posA ornA posB ornB destroy_point_func
       (rev [0..<num_points manifold]) np }"

text \<open>
  \<open>detect_collision\<close> reads the manifold and the bodies and writes \<open>result\<close> only: the
  model returns the new value of \<open>result\<close>.
\<close>

definition detect_collision :: "'s env \<Rightarrow> contact_manifold \<Rightarrow> collision_result \<Rightarrow> 's registry \<Rightarrow> collision_result option" where
  "detect_collision env manifold result r = do {
     (aabbA, shapeA, posA, ornA) \<leftarrow> body_view_get r (fst (body manifold));
     (aabbB, shapeB, posB, ornB) \<leftarrow> body_view_get r (snd (body manifold));
     let offset = vec_scale (- contact_breaking_threshold env) vector3_one;
     if intersect env (inset env aabbA offset) aabbB
     then Some (collide env shapeA posA ornA shapeB posB ornB (contact_breaking_threshold env))
     else Some (result\<lparr> res_num_points := 0 \<rparr>) }"

definition new_point_serial :: "'s env \<Rightarrow> entity \<Rightarrow> collision_point \<Rightarrow> 's narrowphase \<Rightarrow> 's narrowphase option" where
  "new_point_serial env manifold_entity rp np = on_registry (create_contact_point env manifold_entity rp) np"

definition destroy_point_serial :: "entity \<Rightarrow> entity \<Rightarrow> 's narrowphase \<Rightarrow> 's narrowphase option" where
  "destroy_point_serial manifold_entity contact_entity np =
     on_registry (destroy_contact_point manifold_entity contact_entity) np"

definition process_result :: "'s env \<Rightarrow> entity \<Rightarrow> collision_result \<Rightarrow> 's narrowphase \<Rightarrow> 's narrowphase option" where
  "process_result env manifold_entity result np = do {
     np1 \<leftarrow> process_collision env manifold_entity result (new_point_serial env manifold_entity) np;
     manifold \<leftarrow> map_of (manifolds (m_registry np1)) manifold_entity;
     (posA, ornA) \<leftarrow> tr_view_get (m_registry np1) (fst (body manifold));
     (posB, ornB) \<leftarrow> tr_view_get (m_registry np1) (snd (body manifold));
     prune env manifold_entity posA ornA posB ornB (destroy_point_serial manifold_entity) np1 }"

text \<open>A default-constructed \<open>collision_result\<close>.\<close>

definition empty_result :: collision_result where
  "empty_result = \<lparr> res_num_points = 0, res_point = [] \<rparr>"

text \<open>
  Modelled from the spec: \<open>narrowphase::update_contact_manifolds\<close> (a template of
  edyn/collision/narrowphase.hpp, not under src). "Serial. Walk manifolds, for each run
  the pipeline and apply entity mutations (create/destroy contact points) inline": for
  every manifold of the view, in order, \<open>detect_collision\<close> and then \<open>process_result\<close>.
\<close>

fun update_contact_manifolds :: "'s env \<Rightarrow> entity list \<Rightarrow> 's narrowphase \<Rightarrow> 's narrowphase option" where
  "update_contact_manifolds env [] np = Some np"
| "update_contact_manifolds env (manifold_entity # rest) np = do {
     manifold \<leftarrow> map_of (manifolds (m_registry np)) manifold_entity;
     result \<leftarrow> detect_collision env manifold empty_result (m_registry np);
     np1 \<leftarrow> process_result env manifold_entity result np;
     update_contact_manifolds env rest np1 }"


text \<open>\<open>narrowphase::update\<close>, the serial path.\<close>

definition update :: "'s env \<Rightarrow> 's narrowphase \<Rightarrow> 's narrowphase option" where
  "update env np = do {
     np1 \<leftarrow> on_registry (update_contact_distances env) np;
     update_contact_manifolds env (map fst (manifolds (m_registry np1))) np1 }"










section \<open>Properties of the merge step\<close>

lemma select_insert_index_eq:
  assumes "those (map (cp_view_get r) (take (num_points manifold) (point manifold))) = Some cps"
  shows "select_insert_index env r manifold rp =
           Some (insert_index env (map pivotB cps) (map distance cps) (num_points manifold)
                   (pivotB rp) (distance rp))"
  using assms by (simp add: select_insert_index_def Let_def)

text \<open>
  C6. For an incoming point without a nearest-neighbour match, the index that
  \<open>process_collision\<close> acts on is one evaluation of \<open>insert_index\<close> over the \<open>pivotB\<close>
  values and distances of the existing points with \<open>rp.pivotB\<close> and \<open>rp.distance\<close>: the
  second call of the source gets the same arguments and changes nothing.
\<close>

theorem insert_index_applied_once:
  assumes "map_of (manifolds (m_registry np)) manifold_entity = Some manifold"
    and "find_nearest_contact env manifold rp (m_registry np) = Some (num_points manifold)"
    and "those (map (cp_view_get (m_registry np)) (take (num_points manifold) (point manifold))) = Some cps"
    and "idx = insert_index env (map pivotB cps) (map distance cps) (num_points manifold)
                 (pivotB rp) (distance rp)"
  shows "select_insert_index env (m_registry np) manifold rp = Some idx \<and>
         process_point env manifold_entity new_point_func rp np =
           (if idx < max_contacts then
              if idx = num_points manifold then new_point_func rp np
              else do {
                contact_entity \<leftarrow> point manifold ! idx;
                cp \<leftarrow> cp_view_get (m_registry np) (Some contact_entity);
                con \<leftarrow> cp_view_get_constraint (m_registry np) contact_entity;
                on_registry (\<lambda>r. zero_impulses (row con)
                  (put_contact_point contact_entity (merge_point rp (cp\<lparr> lifetime := 0 \<rparr>)) r)) np }
            else Some np)"
proof -
  have s: "select_insert_index env (m_registry np) manifold rp = Some idx"
    using select_insert_index_eq [OF assms(3)] assms(4) by simp
  show ?thesis
    by (simp add: process_point_def assms(1) assms(2) s)
qed

text \<open>
  C9. When the AABB of \<open>b0\<close>, inset by the breaking threshold, does not intersect the
  AABB of \<open>b1\<close>, \<open>detect_collision\<close> emits the result with \<open>num_points = 0\<close>. The function
  writes nothing but the result, and the merge step run on that result leaves the whole
  state as it was: the manifold and its contact points are not destroyed by this check.
\<close>

theorem detect_collision_no_intersection:
  assumes "body_view_get r (fst (body manifold)) = Some (aabbA, shapeA, posA, ornA)"
    and "body_view_get r (snd (body manifold)) = Some (aabbB, shapeB, posB, ornB)"
    and "\<not> intersect env (inset env aabbA (vec_scale (- contact_breaking_threshold env) vector3_one)) aabbB"
  shows "detect_collision env manifold result r = Some (result\<lparr> res_num_points := 0 \<rparr>) \<and>
         process_collision env manifold_entity (result\<lparr> res_num_points := 0 \<rparr>) new_point_func np = Some np"
  using assms by (simp add: detect_collision_def process_collision_def Let_def)




lemma zero_impulses_frame:
  "zero_impulses es r = Some r' \<Longrightarrow>
     contact_points r' = contact_points r \<and> manifolds r' = manifolds r \<and>
     constraints r' = constraints r \<and> dirties r' = dirties r \<and> next_entity r' = next_entity r \<and>
     node_parents r' = node_parents r \<and> materials r' = materials r"
  by (induction es arbitrary: r) (auto split: option.splits)





section \<open>Properties of contact point creation and destruction\<close>



lemma create_contact_constraint_dirties:
  "create_contact_constraint env manifold_entity contact_entity r = Some r' \<Longrightarrow>
     dirties r' = dirties r \<and> manifolds r' = manifolds r \<and> next_entity r' = next_entity r"
  by (auto simp: create_contact_constraint_def Let_def make_constraint_def put_contact_point_def
      split: Option.bind_splits if_splits)


section \<open>Dirty annotations\<close>

lemma process_point_no_callback_dirties:
  assumes "process_point env manifold_entity (\<lambda>rp np. Some np) rp np = Some np'"
  shows "dirties (m_registry np') = dirties (m_registry np)"
proof -
  have z: "\<And>es r r'. zero_impulses es r = Some r' \<Longrightarrow> dirties r' = dirties r"
    using zero_impulses_frame by blast
  from assms show ?thesis
    by (auto simp: process_point_def on_registry_def put_contact_point_def
        split: Option.bind_splits if_splits option.splits dest!: z)
qed

lemma create_contact_point_dirty:
  assumes m: "map_of (manifolds r) manifold_entity = Some manifold"
    and room: "num_points manifold < max_contacts"
    and run: "create_contact_point env manifold_entity rp r = Some r'"
  shows "\<exists>d dm. dirties r' (next_entity r) = Some d \<and> is_new_entity d \<and>
           (Contact_point, Created) \<in> changes d \<and>
           dirties r' manifold_entity = Some dm \<and> (Contact_manifold, Updated) \<in> changes dm"
proof -
  from run m room obtain r4 where
    r': "r' = mark_dirty manifold_entity (updated [Contact_manifold])
               (mark_dirty (next_entity r) (\<lambda>d. created [Contact_point] (set_new d)) r4)"
    by (auto simp: create_contact_point_def Let_def create_def split: Option.bind_splits if_splits)
  show ?thesis
    by (cases "manifold_entity = next_entity r")
       (simp_all add: r' mark_dirty_def created_def updated_def set_new_def)
qed

lemma destroy_contact_point_dirty:
  assumes "destroy_contact_point manifold_entity contact_entity r = Some r'"
  shows "\<exists>dm. dirties r' manifold_entity = Some dm \<and> (Contact_manifold, Updated) \<in> changes dm \<and>
           (Island_node_parent, Updated) \<in> changes dm"
  using assms
  by (auto simp: destroy_contact_point_def Let_def mark_dirty_def updated_def split: Option.bind_splits)

text \<open>
  C5, as the code has it. Creating a contact point marks the new contact entity dirty
  (as new, with \<open>contact_point\<close> created) and the manifold entity with
  \<open>contact_manifold\<close> updated; destroying a contact point marks the manifold entity with
  \<open>contact_manifold\<close> and \<open>island_node_parent\<close> updated. What the merge step does to an
  existing contact point (a merge or a replacement, which change pivots, normal,
  distance and lifetime) leaves every dirty annotation as it was.
\<close>

theorem dirty_marks_of_lifecycle:
  "(\<forall>manifold r'. map_of (manifolds r) manifold_entity = Some manifold \<and>
       num_points manifold < max_contacts \<and>
       create_contact_point env manifold_entity rp r = Some r' \<longrightarrow>
       (\<exists>d dm. dirties r' (next_entity r) = Some d \<and> is_new_entity d \<and>
          (Contact_point, Created) \<in> changes d \<and>
          dirties r' manifold_entity = Some dm \<and> (Contact_manifold, Updated) \<in> changes dm)) \<and>
   (\<forall>r'. destroy_contact_point manifold_entity contact_entity r = Some r' \<longrightarrow>
       (\<exists>dm. dirties r' manifold_entity = Some dm \<and> (Contact_manifold, Updated) \<in> changes dm \<and>
          (Island_node_parent, Updated) \<in> changes dm)) \<and>
   (\<forall>np'. process_point env manifold_entity (\<lambda>rp np. Some np) rp np = Some np' \<longrightarrow>
       dirties (m_registry np') = dirties (m_registry np))"
  using create_contact_point_dirty destroy_contact_point_dirty process_point_no_callback_dirties
  by blast

section \<open>Properties of the prune step\<close>

text \<open>
  A manifold is dense over the handles \<open>es\<close> when its slots below \<open>length es\<close> hold the
  distinct handles \<open>es\<close> and the other slots, up to \<open>max_contacts\<close>, the sentinel.
\<close>

definition dense :: "contact_manifold \<Rightarrow> entity list \<Rightarrow> bool" where
  "dense m es = (point m = map Some es @ replicate (max_contacts - length es) None \<and>
                 length es \<le> max_contacts \<and> distinct es)"

lemma num_points_map_Some:
  "point m = map Some xs @ replicate z None \<Longrightarrow> num_points m = length xs"
  by (simp add: num_points_def)

lemma nth_prefix_handle:
  "(map Some (ps @ e # kept) @ replicate z None) ! length ps = Some e"
  by (simp add: nth_append)

lemma drop_last_slot:
  "(map Some (ps @ [e]) @ replicate z None)[length ps := None] = map Some ps @ replicate (Suc z) None"
  by (simp add: list_update_append)

lemma swap_with_last:
  "((map Some (ps @ e # bk @ [l]) @ replicate z None)[length ps := Some l])[length ps + Suc (length bk) := None]
     = map Some (ps @ l # bk) @ replicate (Suc z) None"
  by (simp add: list_update_append nth_append)

lemma nth_last_handle:
  "(map Some (ps @ e # bk @ [l]) @ replicate z None) ! (length ps + Suc (length bk)) = Some l"
  by (simp add: nth_append)

lemma cp_view_get_put_manifold [simp]:
  "cp_view_get (put_manifold me m r) h = cp_view_get r h"
  by (cases h) (simp_all add: cp_view_get_def put_manifold_def split: option.splits)

text \<open>The test of \<open>prune\<close> on the contact point that a handle has in a registry.\<close>

definition separating_in :: "'s env \<Rightarrow> vector3 \<Rightarrow> quaternion \<Rightarrow> vector3 \<Rightarrow> quaternion \<Rightarrow> 's registry \<Rightarrow> entity \<Rightarrow> bool" where
  "separating_in env posA ornA posB ornB r e =
     (case cp_view_get r (Some e) of None \<Rightarrow> False | Some cp \<Rightarrow> separating env posA ornA posB ornB cp)"

lemma prune_step_keep:
  assumes "map_of (manifolds (m_registry np)) me = Some m"
    and "point m ! k = Some x"
    and "cp_view_get (m_registry np) (Some x) = Some cp"
    and "\<not> separating env posA ornA posB ornB cp"
  shows "prune_step env me posA ornA posB ornB f k np = Some np"
  using assms by (simp add: prune_step_def)

lemma prune_step_remove:
  assumes "map_of (manifolds (m_registry np)) me = Some m"
    and "point m ! k = Some x"
    and "cp_view_get (m_registry np) (Some x) = Some cp"
    and "separating env posA ornA posB ornB cp"
  shows "prune_step env me posA ornA posB ornB f k np =
     f x (np\<lparr> m_registry := put_manifold me
            (m\<lparr> point := (if num_points m - 1 \<noteq> k then (point m)[k := point m ! (num_points m - 1)]
                           else point m)[num_points m - 1 := None] \<rparr>) (m_registry np) \<rparr>)"
  using assms by (simp add: prune_step_def Let_def)

lemma removed_slots:
  assumes pts: "point m = map Some (xs @ x # kept) @ replicate z None"
    and dist: "distinct (xs @ x # kept)"
  shows "\<exists>kept1. (if num_points m - 1 \<noteq> length xs then (point m)[length xs := point m ! (num_points m - 1)]
                  else point m)[num_points m - 1 := None]
               = map Some (xs @ kept1) @ replicate (Suc z) None \<and>
           set kept1 = set kept \<and> length kept1 = length kept \<and> distinct (xs @ kept1)"
proof (cases kept rule: rev_cases)
  case Nil
  have n: "num_points m = Suc (length xs)" using num_points_map_Some [OF pts] Nil by simp
  have "(point m)[length xs := None] = map Some xs @ replicate (Suc z) None"
    using drop_last_slot [of xs x z] pts Nil by simp
  with n Nil dist show ?thesis by simp
next
  case (snoc bk l)
  have n: "num_points m = length xs + Suc (Suc (length bk))"
    using num_points_map_Some [OF pts] snoc by simp
  have last: "point m ! (length xs + Suc (length bk)) = Some l"
    using nth_last_handle [of xs x bk l z] pts snoc by simp
  have "((point m)[length xs := Some l])[length xs + Suc (length bk) := None]
          = map Some (xs @ l # bk) @ replicate (Suc z) None"
    using swap_with_last [of xs x bk l z] pts snoc by simp
  with n last have "(if num_points m - 1 \<noteq> length xs then (point m)[length xs := point m ! (num_points m - 1)]
                  else point m)[num_points m - 1 := None]
               = map Some (xs @ l # bk) @ replicate (Suc z) None" by simp
  moreover have "set (l # bk) = set kept \<and> length (l # bk) = length kept \<and> distinct (xs @ l # bk)"
    using snoc dist by auto
  ultimately show ?thesis by blast
qed

lemma prune_loop_dense:
  assumes f_ok: "\<And>e np. I np \<Longrightarrow> e \<noteq> me \<Longrightarrow>
           \<exists>np'. f e np = Some np' \<and> I np' \<and>
             map_of (manifolds (m_registry np')) me = map_of (manifolds (m_registry np)) me \<and>
             (\<forall>e'. e' \<noteq> e \<longrightarrow>
                cp_view_get (m_registry np') (Some e') = cp_view_get (m_registry np) (Some e')) \<and>
             Q e np' \<and> (\<forall>e'. Q e' np \<longrightarrow> Q e' np')"
    and I_put: "\<And>np m. I np \<Longrightarrow> I (np\<lparr> m_registry := put_manifold me m (m_registry np) \<rparr>)"
    and Q_put: "\<And>e np m. Q e np \<Longrightarrow> Q e (np\<lparr> m_registry := put_manifold me m (m_registry np) \<rparr>)"
  shows "I np \<Longrightarrow> map_of (manifolds (m_registry np)) me = Some m \<Longrightarrow>
     point m = map Some (pre @ kept) @ replicate z None \<Longrightarrow>
     distinct (pre @ kept) \<Longrightarrow> me \<notin> set pre \<Longrightarrow>
     (\<forall>e. e \<in> set pre \<longrightarrow> cp_view_get (m_registry np) (Some e) \<noteq> None) \<Longrightarrow>
     \<exists>np' m' kept'.
        prune_loop env me posA ornA posB ornB f (rev [0..<length pre]) np = Some np' \<and> I np' \<and>
        map_of (manifolds (m_registry np')) me = Some m' \<and> body m' = body m \<and>
        point m' = map Some kept' @ replicate (z + length pre + length kept - length kept') None \<and>
        length kept' \<le> length pre + length kept \<and> distinct kept' \<and>
        set kept' = set kept \<union> {e \<in> set pre. \<not> separating_in env posA ornA posB ornB (m_registry np) e} \<and>
        (\<forall>e'. e' \<notin> set pre \<longrightarrow>
           cp_view_get (m_registry np') (Some e') = cp_view_get (m_registry np) (Some e')) \<and>
        (\<forall>e'. \<not> separating_in env posA ornA posB ornB (m_registry np) e' \<longrightarrow>
           cp_view_get (m_registry np') (Some e') = cp_view_get (m_registry np) (Some e')) \<and>
        (\<forall>e'. e' \<in> set pre \<and> separating_in env posA ornA posB ornB (m_registry np) e' \<longrightarrow> Q e' np') \<and>
        (\<forall>e'. Q e' np \<longrightarrow> Q e' np')"
proof (induction pre arbitrary: np m kept z rule: rev_induct)
  case Nil
  then show ?case
    by (intro exI [of _ np] exI [of _ m] exI [of _ kept]) simp
next
  case (snoc x xs)
  let ?r = "m_registry np"
  let ?sep = "separating_in env posA ornA posB ornB"
  have pts: "point m = map Some (xs @ x # kept) @ replicate z None" using snoc.prems(3) by simp
  have dist: "distinct (xs @ x # kept)" using snoc.prems(4) by simp
  have x_me: "x \<noteq> me" and me_xs: "me \<notin> set xs" using snoc.prems(5) by auto
  have x_xs: "x \<notin> set xs" using dist by auto
  have slot: "point m ! length xs = Some x" using nth_prefix_handle [of xs x kept z] pts by simp
  from snoc.prems(6) obtain cp where cp: "cp_view_get ?r (Some x) = Some cp" by auto
  have unroll: "rev [0..<length (xs @ [x])] = length xs # rev [0..<length xs]" by simp
  show ?case
  proof (cases "separating env posA ornA posB ornB cp")
    case False
    have step: "prune_step env me posA ornA posB ornB f (length xs) np = Some np"
      using prune_step_keep [OF snoc.prems(2) slot cp False] .
    have nsep: "\<not> ?sep ?r x" using cp False by (simp add: separating_in_def)
    have pts': "point m = map Some (xs @ (x # kept)) @ replicate z None" using pts by simp
    have views: "\<forall>e. e \<in> set xs \<longrightarrow> cp_view_get ?r (Some e) \<noteq> None" using snoc.prems(6) by simp
    from snoc.IH [OF snoc.prems(1) snoc.prems(2) pts' dist me_xs views]
    obtain np' m' kept' where
      loop: "prune_loop env me posA ornA posB ornB f (rev [0..<length xs]) np = Some np'"
      and inv: "I np'" "map_of (manifolds (m_registry np')) me = Some m'" "body m' = body m"
      and pm: "point m' = map Some kept' @ replicate (z + length xs + length (x # kept) - length kept') None"
      and len: "length kept' \<le> length xs + length (x # kept)" and dk: "distinct kept'"
      and sk: "set kept' = set (x # kept) \<union> {e \<in> set xs. \<not> ?sep ?r e}"
      and fr1: "\<forall>e'. e' \<notin> set xs \<longrightarrow> cp_view_get (m_registry np') (Some e') = cp_view_get ?r (Some e')"
      and fr2: "\<forall>e'. \<not> ?sep ?r e' \<longrightarrow> cp_view_get (m_registry np') (Some e') = cp_view_get ?r (Some e')"
      and q1: "\<forall>e'. e' \<in> set xs \<and> ?sep ?r e' \<longrightarrow> Q e' np'"
      and q2: "\<forall>e'. Q e' np \<longrightarrow> Q e' np'"
      by blast
    have run: "prune_loop env me posA ornA posB ornB f (rev [0..<length (xs @ [x])]) np = Some np'"
      using step loop by (simp only: unroll prune_loop.simps) simp
    have pm2: "point m' = map Some kept' @ replicate (z + length (xs @ [x]) + length kept - length kept') None"
      using pm by simp
    have len2: "length kept' \<le> length (xs @ [x]) + length kept" using len by simp
    have sk2: "set kept' = set kept \<union> {e \<in> set (xs @ [x]). \<not> ?sep ?r e}"
      using sk nsep by auto
    have fr1': "\<forall>e'. e' \<notin> set (xs @ [x]) \<longrightarrow> cp_view_get (m_registry np') (Some e') = cp_view_get ?r (Some e')"
      using fr1 by simp
    have q1': "\<forall>e'. e' \<in> set (xs @ [x]) \<and> ?sep ?r e' \<longrightarrow> Q e' np'"
      using q1 nsep by auto
    from run inv pm2 len2 dk sk2 fr1' fr2 q1' q2 show ?thesis by blast
  next
    case True
    have sepx: "?sep ?r x" using cp True by (simp add: separating_in_def)
    from removed_slots [OF pts dist] obtain kept1 where
      pts2: "(if num_points m - 1 \<noteq> length xs then (point m)[length xs := point m ! (num_points m - 1)]
                  else point m)[num_points m - 1 := None]
               = map Some (xs @ kept1) @ replicate (Suc z) None"
      and k1: "set kept1 = set kept" "length kept1 = length kept" "distinct (xs @ kept1)"
      by blast
    define m1 where "m1 = m\<lparr> point := map Some (xs @ kept1) @ replicate (Suc z) None \<rparr>"
    define np1 where "np1 = np\<lparr> m_registry := put_manifold me m1 ?r \<rparr>"
    have step: "prune_step env me posA ornA posB ornB f (length xs) np = f x np1"
      using prune_step_remove [OF snoc.prems(2) slot cp True, of f] pts2
      by (simp add: np1_def m1_def)
    have I1: "I np1" unfolding np1_def using I_put [OF snoc.prems(1)] .
    from f_ok [OF I1 x_me] obtain np2 where
      f2: "f x np1 = Some np2" and I2: "I np2"
      and man2: "map_of (manifolds (m_registry np2)) me = map_of (manifolds (m_registry np1)) me"
      and view2: "\<forall>e'. e' \<noteq> x \<longrightarrow>
                cp_view_get (m_registry np2) (Some e') = cp_view_get (m_registry np1) (Some e')"
      and Qx: "Q x np2" and Qm: "\<forall>e'. Q e' np1 \<longrightarrow> Q e' np2"
      by blast
    have man1: "map_of (manifolds (m_registry np1)) me = Some m1"
      by (simp add: np1_def put_manifold_def update_conv')
    have view1: "\<And>h. cp_view_get (m_registry np1) h = cp_view_get ?r h" by (simp add: np1_def)
    have view12: "\<forall>e'. e' \<noteq> x \<longrightarrow> cp_view_get (m_registry np2) (Some e') = cp_view_get ?r (Some e')"
      using view2 view1 by simp
    have man2': "map_of (manifolds (m_registry np2)) me = Some m1" using man2 man1 by simp
    have pm1: "point m1 = map Some (xs @ kept1) @ replicate (Suc z) None" by (simp add: m1_def)
    have views: "\<forall>e. e \<in> set xs \<longrightarrow> cp_view_get (m_registry np2) (Some e) \<noteq> None"
      using snoc.prems(6) view12 x_xs by auto
    from snoc.IH [OF I2 man2' pm1 k1(3) me_xs views]
    obtain np' m' kept' where
      loop: "prune_loop env me posA ornA posB ornB f (rev [0..<length xs]) np2 = Some np'"
      and inv: "I np'" "map_of (manifolds (m_registry np')) me = Some m'" "body m' = body m1"
      and pm: "point m' = map Some kept' @ replicate (Suc z + length xs + length kept1 - length kept') None"
      and len: "length kept' \<le> length xs + length kept1" and dk: "distinct kept'"
      and sk: "set kept' = set kept1 \<union> {e \<in> set xs. \<not> ?sep (m_registry np2) e}"
      and fr1: "\<forall>e'. e' \<notin> set xs \<longrightarrow> cp_view_get (m_registry np') (Some e') = cp_view_get (m_registry np2) (Some e')"
      and fr2: "\<forall>e'. \<not> ?sep (m_registry np2) e' \<longrightarrow> cp_view_get (m_registry np') (Some e') = cp_view_get (m_registry np2) (Some e')"
      and q1: "\<forall>e'. e' \<in> set xs \<and> ?sep (m_registry np2) e' \<longrightarrow> Q e' np'"
      and q2: "\<forall>e'. Q e' np2 \<longrightarrow> Q e' np'"
      by blast
    have sep_same: "\<And>e. e \<noteq> x \<Longrightarrow> ?sep (m_registry np2) e = ?sep ?r e"
      using view12 by (simp add: separating_in_def)
    have run: "prune_loop env me posA ornA posB ornB f (rev [0..<length (xs @ [x])]) np = Some np'"
      using step f2 loop by (simp only: unroll prune_loop.simps) simp
    have b: "body m' = body m" using inv(3) by (simp add: m1_def)
    have pm2: "point m' = map Some kept' @ replicate (z + length (xs @ [x]) + length kept - length kept') None"
      using pm k1(2) by simp
    have len2: "length kept' \<le> length (xs @ [x]) + length kept" using len k1(2) by simp
    have "\<And>e. e \<in> set xs \<Longrightarrow> ?sep (m_registry np2) e = ?sep ?r e"
      using sep_same x_xs by metis
    then have "{e \<in> set xs. \<not> ?sep (m_registry np2) e} = {e \<in> set xs. \<not> ?sep ?r e}"
      by blast
    then have sk2: "set kept' = set kept \<union> {e \<in> set (xs @ [x]). \<not> ?sep ?r e}"
      using sk k1(1) sepx by auto
    have fr1': "\<forall>e'. e' \<notin> set (xs @ [x]) \<longrightarrow> cp_view_get (m_registry np') (Some e') = cp_view_get ?r (Some e')"
      using fr1 view12 by simp
    have fr2': "\<forall>e'. \<not> ?sep ?r e' \<longrightarrow> cp_view_get (m_registry np') (Some e') = cp_view_get ?r (Some e')"
    proof (intro allI impI)
      fix e' assume ns: "\<not> ?sep ?r e'"
      with sepx have ne: "e' \<noteq> x" by auto
      with ns sep_same have "\<not> ?sep (m_registry np2) e'" by simp
      with fr2 have "cp_view_get (m_registry np') (Some e') = cp_view_get (m_registry np2) (Some e')" by simp
      with view12 ne show "cp_view_get (m_registry np') (Some e') = cp_view_get ?r (Some e')" by simp
    qed
    have q1': "\<forall>e'. e' \<in> set (xs @ [x]) \<and> ?sep ?r e' \<longrightarrow> Q e' np'"
    proof (intro allI impI)
      fix e' assume h: "e' \<in> set (xs @ [x]) \<and> ?sep ?r e'"
      show "Q e' np'"
      proof (cases "e' = x")
        case True
        with Qx q2 show ?thesis by simp
      next
        case False
        with h have "e' \<in> set xs" by simp
        moreover from False h sep_same have "?sep (m_registry np2) e'" by simp
        ultimately show ?thesis using q1 by simp
      qed
    qed
    have q2': "\<forall>e'. Q e' np \<longrightarrow> Q e' np'"
    proof (intro allI impI)
      fix e' assume "Q e' np"
      then have "Q e' np1" unfolding np1_def by (rule Q_put)
      with Qm q2 show "Q e' np'" by simp
    qed
    from run inv(1) inv(2) b pm2 len2 dk sk2 fr1' fr2' q1' q2' show ?thesis by blast
  qed
qed

lemma destroy_point_serial_frame:
  assumes parent: "node_parents (m_registry np) me \<noteq> None" and ne: "e \<noteq> me"
  shows "\<exists>np'. destroy_point_serial me e np = Some np' \<and> node_parents (m_registry np') me \<noteq> None \<and>
           map_of (manifolds (m_registry np')) me = map_of (manifolds (m_registry np)) me \<and>
           (\<forall>e'. e' \<noteq> e \<longrightarrow>
              cp_view_get (m_registry np') (Some e') = cp_view_get (m_registry np) (Some e')) \<and>
           map_of (contact_points (m_registry np')) e = None \<and>
           (\<forall>e'. map_of (contact_points (m_registry np)) e' = None \<longrightarrow>
              map_of (contact_points (m_registry np')) e' = None)"
proof -
  from parent obtain children where c: "node_parents (m_registry np) me = Some children" by auto
  with ne have c': "node_parents (destroy e (m_registry np)) me = Some children"
    by (simp add: destroy_def)
  let ?r' = "mark_dirty me (updated [Contact_manifold, Island_node_parent])
      ((destroy e (m_registry np))\<lparr> node_parents :=
          (node_parents (destroy e (m_registry np)))(me \<mapsto> removeAll e children) \<rparr>)"
  have run: "destroy_point_serial me e np = Some (np\<lparr> m_registry := ?r' \<rparr>)"
    using c' by (simp add: destroy_point_serial_def on_registry_def destroy_contact_point_def Let_def)
  have 1: "node_parents ?r' me \<noteq> None" by (simp add: mark_dirty_def)
  have 2: "map_of (manifolds ?r') me = map_of (manifolds (m_registry np)) me"
    using ne by (simp add: mark_dirty_def destroy_def delete_conv')
  have 3: "\<forall>e'. e' \<noteq> e \<longrightarrow> cp_view_get ?r' (Some e') = cp_view_get (m_registry np) (Some e')"
    by (auto simp: cp_view_get_def mark_dirty_def destroy_def delete_conv' split: option.splits)
  have 4: "map_of (contact_points ?r') e = None"
    by (simp add: mark_dirty_def destroy_def delete_conv')
  have 5: "\<forall>e'. map_of (contact_points (m_registry np)) e' = None \<longrightarrow> map_of (contact_points ?r') e' = None"
    by (simp add: mark_dirty_def destroy_def delete_conv')
  from run 1 2 3 4 5 show ?thesis by simp
qed

text \<open>
  C7. On a manifold whose slots below \<open>num_points\<close> hold distinct handles of contact
  points that the view has, with the sentinel in the other slots, \<open>prune\<close> (as
  \<open>process_result\<close> calls it) returns, and the handles it leaves are exactly those of the
  points that its test does not find separating: normal separation above the breaking
  threshold, or squared tangential drift above its square. Afterwards the slots below
  \<open>num_points\<close> again hold distinct handles, still with their contact points, the other
  slots hold the sentinel, \<open>num_points\<close> is at most \<open>max_contacts\<close>, and the removed
  contact points are destroyed.
\<close>

theorem prune_removes_exactly_separating:
  assumes m: "map_of (manifolds (m_registry np)) me = Some manifold"
    and d: "dense manifold es"
    and me: "me \<notin> set es"
    and views: "\<forall>e. e \<in> set es \<longrightarrow> cp_view_get (m_registry np) (Some e) \<noteq> None"
    and parent: "node_parents (m_registry np) me \<noteq> None"
  shows "\<exists>np' manifold' es'.
     prune env me posA ornA posB ornB (destroy_point_serial me) np = Some np' \<and>
     map_of (manifolds (m_registry np')) me = Some manifold' \<and>
     dense manifold' es' \<and> num_points manifold' = length es' \<and> num_points manifold' \<le> max_contacts \<and>
     set es' = {e \<in> set es. \<not> separating_in env posA ornA posB ornB (m_registry np) e} \<and>
     (\<forall>e. e \<in> set es' \<longrightarrow>
        cp_view_get (m_registry np') (Some e) = cp_view_get (m_registry np) (Some e)) \<and>
     (\<forall>e. e \<in> set es \<and> e \<notin> set es' \<longrightarrow> map_of (contact_points (m_registry np')) e = None)"
proof -
  let ?z = "max_contacts - length es"
  let ?sep = "separating_in env posA ornA posB ornB (m_registry np)"
  have pts: "point manifold = map Some (es @ []) @ replicate ?z None" using d by (simp add: dense_def)
  have dist: "distinct (es @ [])" using d by (simp add: dense_def)
  have len: "length es \<le> max_contacts" using d by (simp add: dense_def)
  have n: "num_points manifold = length es" using num_points_map_Some [OF pts] by simp
  have f_ok: "\<And>e np. node_parents (m_registry np) me \<noteq> None \<Longrightarrow> e \<noteq> me \<Longrightarrow>
           \<exists>np'. destroy_point_serial me e np = Some np' \<and> node_parents (m_registry np') me \<noteq> None \<and>
             map_of (manifolds (m_registry np')) me = map_of (manifolds (m_registry np)) me \<and>
             (\<forall>e'. e' \<noteq> e \<longrightarrow>
                cp_view_get (m_registry np') (Some e') = cp_view_get (m_registry np) (Some e')) \<and>
             map_of (contact_points (m_registry np')) e = None \<and>
             (\<forall>e'. map_of (contact_points (m_registry np)) e' = None \<longrightarrow>
                map_of (contact_points (m_registry np')) e' = None)"
    by (rule destroy_point_serial_frame)
  have I_put: "\<And>np m. node_parents (m_registry np) me \<noteq> None \<Longrightarrow>
      node_parents (m_registry (np\<lparr> m_registry := put_manifold me m (m_registry np) \<rparr>)) me \<noteq> None"
    by (simp add: put_manifold_def)
  have Q_put: "\<And>e np m. map_of (contact_points (m_registry np)) e = None \<Longrightarrow>
      map_of (contact_points (m_registry (np\<lparr> m_registry := put_manifold me m (m_registry np) \<rparr>))) e = None"
    by (simp add: put_manifold_def)
  from prune_loop_dense [where I = "\<lambda>np. node_parents (m_registry np) me \<noteq> None"
      and Q = "\<lambda>e np. map_of (contact_points (m_registry np)) e = None"
      and f = "destroy_point_serial me" and me = me,
      OF f_ok I_put Q_put parent m pts dist me views, of env posA ornA posB ornB]
  obtain np' m' kept' where
    loop: "prune_loop env me posA ornA posB ornB (destroy_point_serial me) (rev [0..<length es]) np = Some np'"
    and man: "map_of (manifolds (m_registry np')) me = Some m'"
    and pm: "point m' = map Some kept' @ replicate (?z + length es + length ([]::entity list) - length kept') None"
    and lk: "length kept' \<le> length es + length ([]::entity list)" and dk: "distinct kept'"
    and sk: "set kept' = set [] \<union> {e \<in> set es. \<not> ?sep e}"
    and fr: "\<forall>e'. \<not> ?sep e' \<longrightarrow> cp_view_get (m_registry np') (Some e') = cp_view_get (m_registry np) (Some e')"
    and gone: "\<forall>e'. e' \<in> set es \<and> ?sep e' \<longrightarrow> map_of (contact_points (m_registry np')) e' = None"
    by blast
  have run: "prune env me posA ornA posB ornB (destroy_point_serial me) np = Some np'"
    using m n loop by (simp add: prune_def)
  have lk': "length kept' \<le> max_contacts" using lk len by simp
  have "?z + length es + length ([]::entity list) - length kept' = max_contacts - length kept'"
    using len by simp
  with pm have pm': "point m' = map Some kept' @ replicate (max_contacts - length kept') None" by simp
  have dn: "dense m' kept'" using pm' lk' dk by (simp add: dense_def)
  have np: "num_points m' = length kept'" using num_points_map_Some [OF pm'] .
  have sk': "set kept' = {e \<in> set es. \<not> ?sep e}" using sk by simp
  have live: "\<forall>e. e \<in> set kept' \<longrightarrow>
        cp_view_get (m_registry np') (Some e) = cp_view_get (m_registry np) (Some e)"
    using fr sk' by blast
  have dead: "\<forall>e. e \<in> set es \<and> e \<notin> set kept' \<longrightarrow> map_of (contact_points (m_registry np')) e = None"
    using gone sk' by blast
  from run man dn np lk' sk' live dead show ?thesis
    by (metis (no_types, lifting))
qed

section \<open>The serial and the parallel path\<close>

























section \<open>The broadphase\<close>

text \<open>
  The broadphase of the source is written against an earlier form of the components:
  the pair of a manifold is a \<open>relation\<close>, the material is \<open>matter\<close>, and the constraint of a
  pair is attached to the relation entity. Its registry has its own record. The views
  over \<open>AABB\<close> and \<open>relation\<close> keep their iteration order; \<open>relations\<close> is the pair table,
  the \<open>std::map\<close> member of \<open>broadphase\<close>.
\<close>

record matter =
  matter_stiffness :: real
  matter_damping :: real

record 's bp_registry =
  bp_next_entity :: entity
  bp_positions :: "entity \<rightharpoonup> vector3"
  bp_orientations :: "entity \<rightharpoonup> quaternion"
  bp_shapes :: "entity \<rightharpoonup> 's"
  bp_sleeping :: "entity list"
  bp_aabbs :: "(entity \<times> AABB) list"
  bp_relations :: "(entity \<times> (entity \<times> entity)) list"
  bp_matters :: "entity \<rightharpoonup> matter"
  bp_constraints :: "entity \<rightharpoonup> contact_constraint"

record 's broadphase =
  registry :: "'s bp_registry"
  relations :: "(entity \<times> entity) \<rightharpoonup> entity"

definition bp_destroy :: "entity \<Rightarrow> 's bp_registry \<Rightarrow> 's bp_registry" where
  "bp_destroy e r = r\<lparr>
     bp_positions := (bp_positions r)(e := None),
     bp_orientations := (bp_orientations r)(e := None),
     bp_shapes := (bp_shapes r)(e := None),
     bp_sleeping := removeAll e (bp_sleeping r),
     bp_aabbs := AList.delete e (bp_aabbs r),
     bp_relations := AList.delete e (bp_relations r),
     bp_matters := (bp_matters r)(e := None),
     bp_constraints := (bp_constraints r)(e := None) \<rparr>"

text \<open>
  The first loop of \<open>broadphase::update\<close>: the AABB of every body with position,
  orientation, shape and AABB that does not sleep.
\<close>

definition refresh_aabbs :: "'s env \<Rightarrow> 's bp_registry \<Rightarrow> 's bp_registry" where
  "refresh_aabbs env r =
     r\<lparr> bp_aabbs := map (\<lambda>(e, bb).
            (case bp_positions r e of None \<Rightarrow> (e, bb) | Some pos \<Rightarrow>
            (case bp_orientations r e of None \<Rightarrow> (e, bb) | Some orn \<Rightarrow>
            (case bp_shapes r e of None \<Rightarrow> (e, bb) | Some sh \<Rightarrow>
               if e \<in> set (bp_sleeping r) then (e, bb) else (e, shape_aabb env sh pos orn)))))
          (bp_aabbs r) \<rparr>"

text \<open>
  The destroy pass: \<open>rel_view.each\<close> fills \<open>destroy_rel\<close> and erases from the pair table;
  then every entity of \<open>destroy_rel\<close> is destroyed. The offset of the test is
  \<open>-contact_breaking_threshold * offset_scale\<close> in each coordinate, with
  \<open>offset_scale = 2\<close>.
\<close>

definition separation_offset :: "'s env \<Rightarrow> vector3" where
  "separation_offset env =
     \<lparr> vx = - contact_breaking_threshold env * 2, vy = - contact_breaking_threshold env * 2,
       vz = - contact_breaking_threshold env * 2 \<rparr>"

definition creation_offset :: "'s env \<Rightarrow> vector3" where
  "creation_offset env =
     \<lparr> vx = - contact_breaking_threshold env, vy = - contact_breaking_threshold env,
       vz = - contact_breaking_threshold env \<rparr>"

definition destroy_visit :: "'s env \<Rightarrow> 's bp_registry \<Rightarrow> entity \<times> (entity \<times> entity) \<Rightarrow>
    ((entity \<times> entity) \<rightharpoonup> entity) \<times> entity list \<Rightarrow> ((entity \<times> entity) \<rightharpoonup> entity) \<times> entity list" where
  "destroy_visit env r visit acc =
     (let ent = fst visit; rel = snd visit; rels = fst acc; destroy_rel = snd acc;
          p = (fst rel, snd rel)
      in if rels p = None \<or> rels p \<noteq> Some ent then acc
         else (case map_of (bp_aabbs r) (fst rel) of
                 None \<Rightarrow> acc
               | Some b0 \<Rightarrow>
                   (case map_of (bp_aabbs r) (snd rel) of
                      None \<Rightarrow> acc
                    | Some b1 \<Rightarrow>
                        if \<not> intersect env (inset env b0 (separation_offset env))
                                           (inset env b1 (separation_offset env))
                        then (rels(p := None, (snd rel, fst rel) := None), destroy_rel @ [ent])
                        else acc)))"

fun destroy_scan :: "'s env \<Rightarrow> 's bp_registry \<Rightarrow> (entity \<times> (entity \<times> entity)) list \<Rightarrow>
    ((entity \<times> entity) \<rightharpoonup> entity) \<times> entity list \<Rightarrow> ((entity \<times> entity) \<rightharpoonup> entity) \<times> entity list" where
  "destroy_scan env r [] acc = acc"
| "destroy_scan env r (visit # rest) acc = destroy_scan env r rest (destroy_visit env r visit acc)"

definition destroy_pass :: "'s env \<Rightarrow> 's broadphase \<Rightarrow> 's broadphase" where
  "destroy_pass env bp =
     (let scanned = destroy_scan env (registry bp) (bp_relations (registry bp)) (relations bp, [])
      in \<lparr> registry = fold bp_destroy (snd scanned) (registry bp), relations = fst scanned \<rparr>)"

text \<open>
  The create pass. \<open>create_pair\<close> is the body of the innermost \<open>if\<close>: a new entity with
  the relation, the contact constraint when both bodies have matter, and the two entries
  of the pair table. A default-constructed \<open>contact_constraint\<close> is rigid.
\<close>

definition create_pair :: "'s env \<Rightarrow> entity \<Rightarrow> entity \<Rightarrow> 's broadphase \<Rightarrow> 's broadphase option" where
  "create_pair env e0 e1 bp = do {
     let r = registry bp;
     let ent = bp_next_entity r;
     let r1 = r\<lparr> bp_next_entity := Suc ent, bp_relations := bp_relations r @ [(ent, (e0, e1))] \<rparr>;
     r2 \<leftarrow> (case bp_matters r1 e0 of
              None \<Rightarrow> Some r1
            | Some m0 \<Rightarrow>
                (case bp_matters r1 e1 of
                   None \<Rightarrow> Some r1
                 | Some m1 \<Rightarrow> do {
                     contact \<leftarrow>
                       (if matter_stiffness m0 < large_scalar env \<or> matter_stiffness m1 < large_scalar env
                        then do {
                          k \<leftarrow> series (matter_stiffness m0) (matter_stiffness m1);
                          c \<leftarrow> series (matter_damping m0) (matter_damping m1);
                          Some \<lparr> stiffness = k, damping = c \<rparr> }
                        else Some \<lparr> stiffness = large_scalar env, damping = large_scalar env \<rparr>);
                     Some (r1\<lparr> bp_constraints := (bp_constraints r1)(ent \<mapsto> contact) \<rparr>) }));
     Some \<lparr> registry = r2, relations = (relations bp)((e0, e1) \<mapsto> ent, (e1, e0) \<mapsto> ent) \<rparr> }"

fun create_inner :: "'s env \<Rightarrow> entity \<Rightarrow> AABB \<Rightarrow> (entity \<times> AABB) list \<Rightarrow> 's broadphase \<Rightarrow> 's broadphase option" where
  "create_inner env e0 b0 [] bp = Some bp"
| "create_inner env e0 b0 ((e1, b1) # rest) bp =
     (if intersect env (inset env b0 (creation_offset env)) (inset env b1 (creation_offset env))
      then (if relations bp (e0, e1) = None
            then (case create_pair env e0 e1 bp of
                    None \<Rightarrow> None
                  | Some bp' \<Rightarrow> create_inner env e0 b0 rest bp')
            else create_inner env e0 b0 rest bp)
      else create_inner env e0 b0 rest bp)"

fun create_outer :: "'s env \<Rightarrow> (entity \<times> AABB) list \<Rightarrow> 's broadphase \<Rightarrow> 's broadphase option" where
  "create_outer env [] bp = Some bp"
| "create_outer env ((e0, b0) # rest) bp =
     (case create_inner env e0 b0 rest bp of
        None \<Rightarrow> None
      | Some bp' \<Rightarrow> create_outer env rest bp')"

definition create_pass :: "'s env \<Rightarrow> 's broadphase \<Rightarrow> 's broadphase option" where
  "create_pass env bp = create_outer env (bp_aabbs (registry bp)) bp"

text \<open>\<open>broadphase::update\<close>.\<close>

definition broadphase_update :: "'s env \<Rightarrow> 's broadphase \<Rightarrow> 's broadphase option" where
  "broadphase_update env bp =
     create_pass env (destroy_pass env (bp\<lparr> registry := refresh_aabbs env (registry bp) \<rparr>))"

section \<open>Properties of the broadphase\<close>

lemma destroy_visit_cases:
  "destroy_visit env r (ent', (a, b)) (rels, ds) = (rels, ds) \<or>
   (rels (a, b) = Some ent' \<and> map_of (bp_aabbs r) a \<noteq> None \<and> map_of (bp_aabbs r) b \<noteq> None \<and>
    destroy_visit env r (ent', (a, b)) (rels, ds) = (rels((a, b) := None, (b, a) := None), ds @ [ent']))"
  by (simp add: destroy_visit_def Let_def split: option.splits)

lemma fun_upd2_other: "p \<noteq> k \<Longrightarrow> q \<noteq> k \<Longrightarrow> (f(p := u, q := w)) k = f k"
  by auto



lemma destroy_visit_missing:
  assumes missing: "map_of (bp_aabbs r) e0 = None \<or> map_of (bp_aabbs r) e1 = None"
  shows "fst (destroy_visit env r visit acc) (e0, e1) = fst acc (e0, e1) \<and>
         fst (destroy_visit env r visit acc) (e1, e0) = fst acc (e1, e0) \<and>
         (snd visit = (e0, e1) \<or> snd visit = (e1, e0) \<longrightarrow>
            snd (destroy_visit env r visit acc) = snd acc) \<and>
         (\<forall>x. x \<in> set (snd (destroy_visit env r visit acc)) \<longrightarrow> x \<in> set (snd acc) \<or> x = fst visit)"
proof -
  obtain ent' a b where v: "visit = (ent', (a, b))" by (metis surj_pair)
  obtain rels ds where acc: "acc = (rels, ds)" by (metis surj_pair)
  from destroy_visit_cases [of env r ent' a b rels ds] show ?thesis
  proof
    assume "destroy_visit env r (ent', (a, b)) (rels, ds) = (rels, ds)"
    then have "destroy_visit env r visit acc = acc" unfolding v acc .
    then show ?thesis by simp
  next
    assume h: "rels (a, b) = Some ent' \<and> map_of (bp_aabbs r) a \<noteq> None \<and> map_of (bp_aabbs r) b \<noteq> None \<and>
      destroy_visit env r (ent', (a, b)) (rels, ds) = (rels((a, b) := None, (b, a) := None), ds @ [ent'])"
    then have res: "destroy_visit env r visit acc = (rels((a, b) := None, (b, a) := None), ds @ [ent'])"
      unfolding v acc by blast
    from h have pa: "map_of (bp_aabbs r) a \<noteq> None" and pb: "map_of (bp_aabbs r) b \<noteq> None" by blast+
    have n1: "(a, b) \<noteq> (e0, e1)"
    proof
      assume "(a, b) = (e0, e1)"
      then have "a = e0" "b = e1" by simp_all
      with pa pb missing show False by auto
    qed
    have n2: "(a, b) \<noteq> (e1, e0)"
    proof
      assume "(a, b) = (e1, e0)"
      then have "a = e1" "b = e0" by simp_all
      with pa pb missing show False by auto
    qed
    from n2 have n3: "(b, a) \<noteq> (e0, e1)" by auto
    from n1 have n4: "(b, a) \<noteq> (e1, e0)" by auto
    have c1: "fst (destroy_visit env r visit acc) (e0, e1) = rels (e0, e1)"
      unfolding res fst_conv by (rule fun_upd2_other [OF n1 n3])
    have c2: "fst (destroy_visit env r visit acc) (e1, e0) = rels (e1, e0)"
      unfolding res fst_conv by (rule fun_upd2_other [OF n2 n4])
    have c3: "\<not> (snd visit = (e0, e1) \<or> snd visit = (e1, e0))"
      using n1 n2 unfolding v snd_conv by blast
    have c4: "\<forall>x. x \<in> set (snd (destroy_visit env r visit acc)) \<longrightarrow> x \<in> set (snd acc) \<or> x = fst visit"
      unfolding res snd_conv unfolding v acc by simp
    have a0: "fst acc (e0, e1) = rels (e0, e1)" "fst acc (e1, e0) = rels (e1, e0)"
      unfolding acc by simp_all
    from c1 c2 c3 c4 a0 show ?thesis by presburger
  qed
qed




lemma destroy_scan_missing:
  assumes "map_of (bp_aabbs r) e0 = None \<or> map_of (bp_aabbs r) e1 = None"
  shows "fst (destroy_scan env r vs acc) (e0, e1) = fst acc (e0, e1) \<and>
         fst (destroy_scan env r vs acc) (e1, e0) = fst acc (e1, e0) \<and>
         (\<forall>x. x \<in> set (snd (destroy_scan env r vs acc)) \<longrightarrow>
            x \<in> set (snd acc) \<or>
            (\<exists>v. v \<in> set vs \<and> fst v = x \<and> snd v \<noteq> (e0, e1) \<and> snd v \<noteq> (e1, e0)))"
proof (induction vs arbitrary: acc)
  case Nil
  then show ?case by simp
next
  case (Cons v vs)
  note step = destroy_visit_missing [OF assms, of env v acc]
  note ih = Cons.IH [of "destroy_visit env r v acc"]
  have 1: "fst (destroy_scan env r (v # vs) acc) (e0, e1) = fst acc (e0, e1)" using ih step by simp
  have 2: "fst (destroy_scan env r (v # vs) acc) (e1, e0) = fst acc (e1, e0)" using ih step by simp
  have 3: "\<forall>x. x \<in> set (snd (destroy_scan env r (v # vs) acc)) \<longrightarrow>
            x \<in> set (snd acc) \<or>
            (\<exists>w. w \<in> set (v # vs) \<and> fst w = x \<and> snd w \<noteq> (e0, e1) \<and> snd w \<noteq> (e1, e0))"
  proof (intro allI impI)
    fix x assume "x \<in> set (snd (destroy_scan env r (v # vs) acc))"
    then have "x \<in> set (snd (destroy_scan env r vs (destroy_visit env r v acc)))" by simp
    with ih have "x \<in> set (snd (destroy_visit env r v acc)) \<or>
            (\<exists>w. w \<in> set vs \<and> fst w = x \<and> snd w \<noteq> (e0, e1) \<and> snd w \<noteq> (e1, e0))" by blast
    then show "x \<in> set (snd acc) \<or>
            (\<exists>w. w \<in> set (v # vs) \<and> fst w = x \<and> snd w \<noteq> (e0, e1) \<and> snd w \<noteq> (e1, e0))"
    proof
      assume a: "x \<in> set (snd (destroy_visit env r v acc))"
      show ?thesis
      proof (cases "x \<in> set (snd acc)")
        case True
        then show ?thesis by simp
      next
        case False
        with a step have xv: "x = fst v" by blast
        from a False step have "\<not> (snd v = (e0, e1) \<or> snd v = (e1, e0))" by metis
        with xv have "v \<in> set (v # vs) \<and> fst v = x \<and> snd v \<noteq> (e0, e1) \<and> snd v \<noteq> (e1, e0)"
          by simp
        then show ?thesis by blast
      qed
    next
      assume "\<exists>w. w \<in> set vs \<and> fst w = x \<and> snd w \<noteq> (e0, e1) \<and> snd w \<noteq> (e1, e0)"
      then obtain w where "w \<in> set vs \<and> fst w = x \<and> snd w \<noteq> (e0, e1) \<and> snd w \<noteq> (e1, e0)" ..
      then have "w \<in> set (v # vs) \<and> fst w = x \<and> snd w \<noteq> (e0, e1) \<and> snd w \<noteq> (e1, e0)" by simp
      then show ?thesis by blast
    qed
  qed
  from 1 2 3 show ?case by blast
qed

lemma fold_bp_destroy_relations:
  "map_of (bp_relations (fold bp_destroy ds r)) ent =
     (if ent \<in> set ds then None else map_of (bp_relations r) ent)"
proof (induction ds arbitrary: r)
  case Nil
  show ?case by simp
next
  case (Cons d ds)
  have "map_of (bp_relations (bp_destroy d r)) ent = (if ent = d then None else map_of (bp_relations r) ent)"
    by (simp add: bp_destroy_def delete_conv')
  with Cons [of "bp_destroy d r"] show ?case by auto
qed


text \<open>
  C3, as the code has it. When one body of a pair has no AABB, the destroy pass leaves
  both entries of the pair in the pair table as they are, and keeps every relation entity
  of that pair.
\<close>

theorem destroy_pass_missing_aabb_keeps_pair:
  assumes missing: "map_of (bp_aabbs (registry bp)) e0 = None \<or> map_of (bp_aabbs (registry bp)) e1 = None"
    and dist: "distinct (map fst (bp_relations (registry bp)))"
  shows "relations (destroy_pass env bp) (e0, e1) = relations bp (e0, e1) \<and>
         relations (destroy_pass env bp) (e1, e0) = relations bp (e1, e0) \<and>
         (\<forall>ent. map_of (bp_relations (registry bp)) ent = Some (e0, e1) \<longrightarrow>
            map_of (bp_relations (registry (destroy_pass env bp))) ent = Some (e0, e1))"
proof -
  let ?r = "registry bp"
  let ?s = "destroy_scan env ?r (bp_relations ?r) (relations bp, [])"
  note m = destroy_scan_missing [OF missing, of env "bp_relations ?r" "(relations bp, [])"]
  have 1: "relations (destroy_pass env bp) (e0, e1) = relations bp (e0, e1)"
    using m by (simp add: destroy_pass_def Let_def)
  have 2: "relations (destroy_pass env bp) (e1, e0) = relations bp (e1, e0)"
    using m by (simp add: destroy_pass_def Let_def)
  have 3: "\<forall>ent. map_of (bp_relations ?r) ent = Some (e0, e1) \<longrightarrow>
            map_of (bp_relations (registry (destroy_pass env bp))) ent = Some (e0, e1)"
  proof (intro allI impI)
    fix ent assume rel: "map_of (bp_relations ?r) ent = Some (e0, e1)"
    have "ent \<notin> set (snd ?s)"
    proof
      assume "ent \<in> set (snd ?s)"
      with m obtain v where v: "v \<in> set (bp_relations ?r)" "fst v = ent" "snd v \<noteq> (e0, e1)"
        by auto
      from v(1) v(2) have "(ent, snd v) \<in> set (bp_relations ?r)" by auto
      with dist have "map_of (bp_relations ?r) ent = Some (snd v)" by (rule map_of_is_SomeI)
      with rel v(3) show False by simp
    qed
    with rel show "map_of (bp_relations (registry (destroy_pass env bp))) ent = Some (e0, e1)"
      by (simp add: destroy_pass_def Let_def fold_bp_destroy_relations)
  qed
  from 1 2 3 show ?thesis by blast
qed

lemma create_pair_relations:
  assumes "create_pair env a b bp = Some bp'"
  shows "relations bp' = (relations bp)((a, b) \<mapsto> bp_next_entity (registry bp),
                                        (b, a) \<mapsto> bp_next_entity (registry bp))"
  using assms
  by (auto simp: create_pair_def Let_def split: option.splits Option.bind_splits if_splits)

lemma create_inner_frame:
  assumes "create_inner env a ba rest bp = Some bp'"
    and "\<forall>y. y \<in> fst ` set rest \<longrightarrow> k \<noteq> (a, y) \<and> k \<noteq> (y, a)"
  shows "relations bp' k = relations bp k"
  using assms
proof (induction rest arbitrary: bp)
  case Nil
  then show ?case by simp
next
  case (Cons v rest)
  obtain e1 b1 where v: "v = (e1, b1)" by (metis surj_pair)
  from Cons.prems(2) v have k1: "(a, e1) \<noteq> k" and k2: "(e1, a) \<noteq> k" by auto
  from Cons.prems(2) have rest: "\<forall>y. y \<in> fst ` set rest \<longrightarrow> k \<noteq> (a, y) \<and> k \<noteq> (y, a)" by auto
  show ?case
  proof (cases "intersect env (inset env ba (creation_offset env)) (inset env b1 (creation_offset env)) \<and>
                relations bp (a, e1) = None")
    case True
    with Cons.prems(1) v obtain bp1 where c: "create_pair env a e1 bp = Some bp1"
      and r: "create_inner env a ba rest bp1 = Some bp'"
      by (auto split: option.splits)
    have "relations bp1 k = relations bp k"
      unfolding create_pair_relations [OF c] by (rule fun_upd2_other [OF k1 k2])
    with Cons.IH [OF r rest] show ?thesis by simp
  next
    case False
    with Cons.prems(1) v have "create_inner env a ba rest bp = Some bp'"
      by (auto split: if_splits)
    from Cons.IH [OF this rest] show ?thesis .
  qed
qed


lemma create_inner_keep:
  assumes "create_inner env a ba rest bp = Some bp'"
    and "relations bp (a, e1) = Some ent"
  shows "relations bp' (a, e1) = Some ent"
  using assms
proof (induction rest arbitrary: bp)
  case Nil
  then show ?case by simp
next
  case (Cons v rest)
  obtain y b where v: "v = (y, b)" by (metis surj_pair)
  show ?case
  proof (cases "intersect env (inset env ba (creation_offset env)) (inset env b (creation_offset env)) \<and>
                relations bp (a, y) = None")
    case True
    with Cons.prems(1) v obtain bp1 where c: "create_pair env a y bp = Some bp1"
      and r: "create_inner env a ba rest bp1 = Some bp'"
      by (auto split: option.splits)
    from True Cons.prems(2) have ne: "y \<noteq> e1" by auto
    have k1: "(a, y) \<noteq> (a, e1)" using ne by simp
    have k2: "(y, a) \<noteq> (a, e1)" using ne by auto
    have "relations bp1 (a, e1) = relations bp (a, e1)"
      unfolding create_pair_relations [OF c] by (rule fun_upd2_other [OF k1 k2])
    with Cons.prems(2) have "relations bp1 (a, e1) = Some ent" by simp
    from Cons.IH [OF r this] show ?thesis .
  next
    case False
    with Cons.prems(1) v have r: "create_inner env a ba rest bp = Some bp'"
      by (auto split: if_splits)
    from Cons.IH [OF r Cons.prems(2)] show ?thesis .
  qed
qed

lemma create_outer_frame:
  assumes "create_outer env l bp = Some bp'"
    and "x \<notin> fst ` set l \<or> y \<notin> fst ` set l"
  shows "relations bp' (x, y) = relations bp (x, y)"
  using assms
proof (induction l arbitrary: bp)
  case Nil
  then show ?case by simp
next
  case (Cons v l)
  obtain a ba where v: "v = (a, ba)" by (metis surj_pair)
  from Cons.prems(1) v obtain bp1 where i: "create_inner env a ba l bp = Some bp1"
    and o: "create_outer env l bp1 = Some bp'"
    by (auto split: option.splits)
  have fr: "\<forall>z. z \<in> fst ` set l \<longrightarrow> (x, y) \<noteq> (a, z) \<and> (x, y) \<noteq> (z, a)"
    using Cons.prems(2) v by auto
  have rest: "x \<notin> fst ` set l \<or> y \<notin> fst ` set l" using Cons.prems(2) by auto
  from create_inner_frame [OF i fr] Cons.IH [OF o rest] show ?case by simp
qed

lemma create_outer_prefix:
  assumes "create_outer env (xs @ l) bp = Some bp'"
    and "x \<notin> fst ` set xs" and "y \<notin> fst ` set xs"
  shows "\<exists>bp1. relations bp1 (x, y) = relations bp (x, y) \<and> create_outer env l bp1 = Some bp'"
  using assms
proof (induction xs arbitrary: bp)
  case Nil
  then show ?case by (intro exI [of _ bp]) simp
next
  case (Cons v xs)
  obtain a ba where v: "v = (a, ba)" by (metis surj_pair)
  from Cons.prems(1) v obtain bp1 where i: "create_inner env a ba (xs @ l) bp = Some bp1"
    and o: "create_outer env (xs @ l) bp1 = Some bp'"
    by (auto split: option.splits)
  from Cons.prems(2) Cons.prems(3) v have na: "x \<noteq> a" "y \<noteq> a" by auto
  have fr: "\<forall>z. z \<in> fst ` set (xs @ l) \<longrightarrow> (x, y) \<noteq> (a, z) \<and> (x, y) \<noteq> (z, a)"
    using na by auto
  from Cons.prems(2) Cons.prems(3) have nx: "x \<notin> fst ` set xs" "y \<notin> fst ` set xs" by auto
  from Cons.IH [OF o nx] create_inner_frame [OF i fr] show ?case by auto
qed


lemma create_pass_tracked:
  assumes run: "create_pass env bp = Some bp'"
    and order: "bp_aabbs (registry bp) = xs @ (e0, b0) # ys @ (e1, b1) # zs"
    and dist: "distinct (map fst (bp_aabbs (registry bp)))"
    and tracked: "relations bp (e0, e1) = Some ent"
  shows "relations bp' (e0, e1) = Some ent"
proof -
  let ?l3 = "ys @ (e1, b1) # zs"
  from dist order have d: "distinct (map fst (xs @ (e0, b0) # ?l3))" by simp
  from d have nx: "e0 \<notin> fst ` set xs" "e1 \<notin> fst ` set xs" by auto
  from d have n3: "e0 \<notin> fst ` set ?l3" by auto
  from run order have o: "create_outer env (xs @ (e0, b0) # ?l3) bp = Some bp'"
    by (simp add: create_pass_def)
  from create_outer_prefix [OF o nx] obtain bp1 where
    r1: "relations bp1 (e0, e1) = relations bp (e0, e1)"
    and o1: "create_outer env ((e0, b0) # ?l3) bp1 = Some bp'" by blast
  from o1 obtain bp2 where i: "create_inner env e0 b0 ?l3 bp1 = Some bp2"
    and o2: "create_outer env ?l3 bp2 = Some bp'"
    by (auto split: option.splits)
  have "relations bp2 (e0, e1) = Some ent"
    using create_inner_keep [OF i] r1 tracked by simp
  moreover have "relations bp' (e0, e1) = relations bp2 (e0, e1)"
    using create_outer_frame [OF o2, of e0 e1] n3 by simp
  ultimately show ?thesis by simp
qed


section \<open>A sample world\<close>

text \<open>
  Concrete inputs for the statements below. The parameters: no rotation, a \<open>collide\<close>
  that returns a given result, an \<open>insert_index\<close> that appends while there is room and
  discards otherwise ("if \<open>num_points < MAX_CONTACTS\<close>: append at \<open>idx = num_points\<close>"),
  unit boxes as the shapes' AABBs, an \<open>inset\<close> that moves the faces of a box inwards by the
  offset, and the constants of the spec's table.
  The world: bodies 1, 2 and 3 at the origin and body 4 ten units away; manifold 10 of
  bodies (1, 2) with the contact points 20 (at rest) and 21 (one unit apart along its
  normal), manifold 11 of bodies (3, 4) without points.
\<close>

definition vec3 :: "real \<Rightarrow> real \<Rightarrow> real \<Rightarrow> vector3" where
  "vec3 a b c = \<lparr> vx = a, vy = b, vz = c \<rparr>"

definition sample_env :: "collision_result \<Rightarrow> unit env" where
  "sample_env res = \<lparr>
     rotate_vec = (\<lambda>q v. v),
     collide = (\<lambda>sA pA oA sB pB oB threshold. res),
     insert_index = (\<lambda>pivots distances n p d. min n max_contacts),
     shape_aabb = (\<lambda>s pos orn. \<lparr> aabb_min = pos, aabb_max = vec_add pos vector3_one \<rparr>),
     inset = (\<lambda>b v. \<lparr> aabb_min = vec_add (aabb_min b) v, aabb_max = vec_sub (aabb_max b) v \<rparr>),
     intersect = (\<lambda>a b. vx (aabb_min a) \<le> vx (aabb_max b) \<and> vx (aabb_min b) \<le> vx (aabb_max a) \<and>
                         vy (aabb_min a) \<le> vy (aabb_max b) \<and> vy (aabb_min b) \<le> vy (aabb_max a) \<and>
                         vz (aabb_min a) \<le> vz (aabb_max b) \<and> vz (aabb_min b) \<le> vz (aabb_max a)),
     contact_breaking_threshold = 1 / 50,
     contact_caching_threshold = 1 / 50,
     large_scalar = 1000000 \<rparr>"

definition sample_point :: "real \<Rightarrow> collision_point" where
  "sample_point a = \<lparr> pivotA = vec3 a 0 0, pivotB = vec3 a 0 0, normalB = vec3 0 0 1, distance = 0 \<rparr>"

definition sample_box :: "real \<Rightarrow> AABB" where
  "sample_box a = \<lparr> aabb_min = vec3 a 0 0, aabb_max = vec3 (a + 1) 1 1 \<rparr>"

definition sample_material :: material where
  "sample_material = \<lparr> mat_restitution = 1 / 2, mat_friction = 1 / 4, mat_stiffness = 1000, mat_damping = 100 \<rparr>"

definition sample_orientation :: quaternion where
  "sample_orientation = \<lparr> qx = 0, qy = 0, qz = 0, qw = 1 \<rparr>"

definition sample_cp20 :: contact_point where
  "sample_cp20 = \<lparr> pivotA = vec3 5 0 0, pivotB = vec3 5 0 0, normalB = vec3 0 0 1, distance = 0,
     cp_body = (1, 2), friction = 1 / 16, restitution = 1 / 4, lifetime = 3 \<rparr>"

definition sample_cp21 :: contact_point where
  "sample_cp21 = \<lparr> pivotA = vec3 0 7 1, pivotB = vec3 0 7 0, normalB = vec3 0 0 1, distance = 1,
     cp_body = (1, 2), friction = 1 / 16, restitution = 1 / 4, lifetime = 5 \<rparr>"

definition sample_manifold10 :: contact_manifold where
  "sample_manifold10 = \<lparr> body = (1, 2), point = [Some 20, Some 21, None, None] \<rparr>"

definition sample_manifold11 :: contact_manifold where
  "sample_manifold11 = \<lparr> body = (3, 4), point = [None, None, None, None] \<rparr>"

definition sample_registry :: "unit registry" where
  "sample_registry = \<lparr>
     next_entity = 100,
     positions = [1 \<mapsto> vec3 0 0 0, 2 \<mapsto> vec3 0 0 0, 3 \<mapsto> vec3 0 0 0, 4 \<mapsto> vec3 10 0 0],
     orientations = [1 \<mapsto> sample_orientation, 2 \<mapsto> sample_orientation,
                     3 \<mapsto> sample_orientation, 4 \<mapsto> sample_orientation],
     aabbs = [1 \<mapsto> sample_box 0, 2 \<mapsto> sample_box 0, 3 \<mapsto> sample_box 0, 4 \<mapsto> sample_box 10],
     shapes = [1 \<mapsto> (), 2 \<mapsto> (), 3 \<mapsto> (), 4 \<mapsto> ()],
     materials = [1 \<mapsto> sample_material, 2 \<mapsto> sample_material,
                  3 \<mapsto> sample_material, 4 \<mapsto> sample_material],
     manifolds = [(10, sample_manifold10), (11, sample_manifold11)],
     contact_points = [(20, sample_cp20), (21, sample_cp21)],
     constraints = [20 \<mapsto> \<lparr> con_body = (1, 2), var = \<lparr> stiffness = 500, damping = 50 \<rparr>, row = [30, 31] \<rparr>,
                    21 \<mapsto> \<lparr> con_body = (1, 2), var = \<lparr> stiffness = 500, damping = 50 \<rparr>, row = [32] \<rparr>],
     constraint_rows = [30 \<mapsto> \<lparr> impulse = 7 \<rparr>, 31 \<mapsto> \<lparr> impulse = 2 \<rparr>, 32 \<mapsto> \<lparr> impulse = 1 \<rparr>],
     dirties = Map.empty,
     node_parents = [10 \<mapsto> [20, 21], 11 \<mapsto> []] \<rparr>"

definition sample_narrowphase :: "unit narrowphase" where
  "sample_narrowphase = \<lparr> m_registry = sample_registry, m_cp_construction_infos = [],
     m_cp_destruction_infos = [] \<rparr>"

definition sample_result :: collision_result where
  "sample_result = \<lparr> res_num_points = 2, res_point = [sample_point 0, sample_point (1 / 100)] \<rparr>"

definition sample_params :: "unit env" where
  "sample_params = sample_env sample_result"





text \<open>
  A world of the broadphase: unit boxes along the x axis, bodies 1, 2 and 3 with AABBs
  (the gap between 1 and 2 is 0.06, between 1 and 3 it is 0.03) and body 5 without one;
  the relation entities 50 of the pair (1, 2) and 51 of the pair (1, 5), both in the
  pair table under both orderings.
\<close>

definition sample_broadphase :: "unit broadphase" where
  "sample_broadphase = \<lparr>
     registry = \<lparr>
       bp_next_entity = 100,
       bp_positions = [1 \<mapsto> vec3 0 0 0, 2 \<mapsto> vec3 (53 / 50) 0 0, 3 \<mapsto> vec3 (103 / 100) 0 0],
       bp_orientations = [1 \<mapsto> sample_orientation, 2 \<mapsto> sample_orientation, 3 \<mapsto> sample_orientation],
       bp_shapes = [1 \<mapsto> (), 2 \<mapsto> (), 3 \<mapsto> ()],
       bp_sleeping = [],
       bp_aabbs = [(1, sample_box 0), (2, sample_box (53 / 50)), (3, sample_box (103 / 100))],
       bp_relations = [(50, (1, 2)), (51, (1, 5))],
       bp_matters = Map.empty,
       bp_constraints = Map.empty \<rparr>,
     relations = [(1, 2) \<mapsto> 50, (2, 1) \<mapsto> 50, (1, 5) \<mapsto> 51, (5, 1) \<mapsto> 51] \<rparr>"

section \<open>The statements on the sample world\<close>

lemma sample_manifold10_lookup:
  "map_of (manifolds (m_registry sample_narrowphase)) 10 = Some sample_manifold10"
  by (simp add: sample_narrowphase_def sample_registry_def)

lemma sample_num_points10: "num_points sample_manifold10 = 2"
  by (simp add: num_points_def sample_manifold10_def)

lemma sample_view20: "cp_view_get (m_registry sample_narrowphase) (Some 20) = Some sample_cp20"
  by (simp add: cp_view_get_def sample_narrowphase_def sample_registry_def)

lemma sample_view21: "cp_view_get (m_registry sample_narrowphase) (Some 21) = Some sample_cp21"
  by (simp add: cp_view_get_def sample_narrowphase_def sample_registry_def)

theorem insert_index_applied_once_witness:
  "find_nearest_contact sample_params sample_manifold10 (sample_point 0) (m_registry sample_narrowphase)
     = Some (num_points sample_manifold10) \<and>
   select_insert_index sample_params (m_registry sample_narrowphase) sample_manifold10 (sample_point 0) = Some 2 \<and>
   process_point sample_params 10 (new_point_serial sample_params 10) (sample_point 0) sample_narrowphase
     = new_point_serial sample_params 10 (sample_point 0) sample_narrowphase"
proof -
  have h2: "find_nearest_contact sample_params sample_manifold10 (sample_point 0) (m_registry sample_narrowphase)
     = Some (num_points sample_manifold10)" by code_simp
  have h3: "those (map (cp_view_get (m_registry sample_narrowphase))
              (take (num_points sample_manifold10) (point sample_manifold10))) = Some [sample_cp20, sample_cp21]"
    by code_simp
  have h4: "(2::nat) = insert_index sample_params (map pivotB [sample_cp20, sample_cp21])
              (map distance [sample_cp20, sample_cp21]) (num_points sample_manifold10)
              (pivotB (sample_point 0)) (distance (sample_point 0))"
    by code_simp
  have lt: "(2::nat) < max_contacts" by (simp add: max_contacts_def)
  from insert_index_applied_once [OF sample_manifold10_lookup h2 h3 h4,
      where new_point_func = "new_point_serial sample_params 10"]
  show ?thesis using h2 lt sample_num_points10 by simp
qed

theorem detect_collision_no_intersection_witness:
  "\<not> intersect sample_params
       (inset sample_params (sample_box 0)
          (vec_scale (- contact_breaking_threshold sample_params) vector3_one)) (sample_box 10) \<and>
   detect_collision sample_params sample_manifold11 sample_result sample_registry
     = Some (sample_result\<lparr> res_num_points := 0 \<rparr>) \<and>
   process_collision sample_params 11 (sample_result\<lparr> res_num_points := 0 \<rparr>)
     (new_point_serial sample_params 11) sample_narrowphase = Some sample_narrowphase"
proof -
  have h1: "body_view_get sample_registry (fst (body sample_manifold11))
              = Some (sample_box 0, (), vec3 0 0 0, sample_orientation)" by code_simp
  have h2: "body_view_get sample_registry (snd (body sample_manifold11))
              = Some (sample_box 10, (), vec3 10 0 0, sample_orientation)" by code_simp
  have h3: "\<not> intersect sample_params
       (inset sample_params (sample_box 0)
          (vec_scale (- contact_breaking_threshold sample_params) vector3_one)) (sample_box 10)"
    by code_simp
  from detect_collision_no_intersection [OF h1 h2 h3, where result = sample_result
      and manifold_entity = 11 and new_point_func = "new_point_serial sample_params 11"
      and np = sample_narrowphase] h3
  show ?thesis by simp
qed


theorem prune_removes_exactly_separating_witness:
  "dense sample_manifold10 [20, 21] \<and>
   (\<exists>np' manifold' es'.
      prune sample_params 10 (vec3 0 0 0) sample_orientation (vec3 0 0 0) sample_orientation
        (destroy_point_serial 10) sample_narrowphase = Some np' \<and>
      map_of (manifolds (m_registry np')) 10 = Some manifold' \<and>
      dense manifold' es' \<and> set es' = {20} \<and> num_points manifold' = length es' \<and>
      cp_view_get (m_registry np') (Some 20) = Some sample_cp20 \<and>
      map_of (contact_points (m_registry np')) 21 = None)"
proof -
  let ?np = "sample_narrowphase"
  let ?p = "vec3 0 0 0"
  let ?q = "sample_orientation"
  have d: "dense sample_manifold10 [20, 21]" by code_simp
  have me: "(10::nat) \<notin> set [20, 21]" by simp
  have views: "\<forall>e. e \<in> set [20, 21] \<longrightarrow> cp_view_get (m_registry ?np) (Some e) \<noteq> None"
    using sample_view20 sample_view21 by auto
  have parent: "node_parents (m_registry ?np) 10 \<noteq> None"
    by (simp add: sample_narrowphase_def sample_registry_def)
  have s21: "separating_in sample_params ?p ?q ?p ?q (m_registry ?np) 21" by code_simp
  have s20: "\<not> separating_in sample_params ?p ?q ?p ?q (m_registry ?np) 20" by code_simp
  have keep: "{e \<in> set [20, 21]. \<not> separating_in sample_params ?p ?q ?p ?q (m_registry ?np) e} = {20}"
    using s20 s21 by auto
  from prune_removes_exactly_separating [OF sample_manifold10_lookup d me views parent,
      of sample_params ?p ?q ?p ?q]
  obtain np' manifold' es' where r:
    "prune sample_params 10 ?p ?q ?p ?q (destroy_point_serial 10) ?np = Some np'"
    "map_of (manifolds (m_registry np')) 10 = Some manifold'"
    "dense manifold' es'" "num_points manifold' = length es'"
    "set es' = {e \<in> set [20, 21]. \<not> separating_in sample_params ?p ?q ?p ?q (m_registry ?np) e}"
    "\<forall>e. e \<in> set es' \<longrightarrow> cp_view_get (m_registry np') (Some e) = cp_view_get (m_registry ?np) (Some e)"
    "\<forall>e. e \<in> set [20, 21] \<and> e \<notin> set es' \<longrightarrow> map_of (contact_points (m_registry np')) e = None"
    by blast
  from r(5) keep have s: "set es' = {20}" by simp
  from r(6) s sample_view20 have live: "cp_view_get (m_registry np') (Some 20) = Some sample_cp20" by simp
  from r(7) s have dead: "map_of (contact_points (m_registry np')) 21 = None" by simp
  from d r(1) r(2) r(3) r(4) s live dead show ?thesis by blast
qed


text \<open>
  C5, as the claim states it, fails: merging an incoming point into the contact point 20
  changes its pivots and its lifetime and leaves the entity without a dirty annotation.
\<close>

theorem merge_leaves_contact_point_clean:
  "map_option (\<lambda>np. (map_option pivotA (map_of (contact_points (m_registry np)) 20),
                       map_option lifetime (map_of (contact_points (m_registry np)) 20),
                       map_option changes (dirties (m_registry np) 20)))
     (process_point sample_params 10 (new_point_serial sample_params 10)
        (sample_point (501 / 100)) sample_narrowphase)
   = Some (Some (vec3 (501 / 100) 0 0), Some 4, None) \<and>
   map_option pivotA (map_of (contact_points (m_registry sample_narrowphase)) 20) = Some (vec3 5 0 0)"
  by code_simp

theorem dirty_marks_of_lifecycle_witness:
  "(\<exists>r' d dm. create_contact_point sample_params 10 (sample_point 5) sample_registry = Some r' \<and>
      dirties r' 100 = Some d \<and> is_new_entity d \<and> (Contact_point, Created) \<in> changes d \<and>
      dirties r' 10 = Some dm \<and> (Contact_manifold, Updated) \<in> changes dm) \<and>
   (\<exists>r' dm. destroy_contact_point 10 21 sample_registry = Some r' \<and>
      dirties r' 10 = Some dm \<and> (Contact_manifold, Updated) \<in> changes dm \<and>
      (Island_node_parent, Updated) \<in> changes dm) \<and>
   (\<exists>np'. process_point sample_params 10 (\<lambda>rp np. Some np) (sample_point 5) sample_narrowphase = Some np' \<and>
      dirties (m_registry np') = dirties (m_registry sample_narrowphase))"
proof -
  note inst = dirty_marks_of_lifecycle [where r = sample_registry and manifold_entity = 10
      and env = sample_params and rp = "sample_point 5" and contact_entity = 21
      and np = sample_narrowphase]
  have m: "map_of (manifolds sample_registry) 10 = Some sample_manifold10"
    by (simp add: sample_registry_def)
  have room: "num_points sample_manifold10 < max_contacts"
    by (simp add: sample_num_points10 max_contacts_def)
  have "\<not> Option.is_none (create_contact_point sample_params 10 (sample_point 5) sample_registry)"
    by code_simp
  then obtain r1 where c: "create_contact_point sample_params 10 (sample_point 5) sample_registry = Some r1"
    by (auto simp: Option.is_none_def)
  have "\<not> Option.is_none (destroy_contact_point 10 21 sample_registry)" by code_simp
  then obtain r2 where d: "destroy_contact_point 10 21 sample_registry = Some r2"
    by (auto simp: Option.is_none_def)
  have "\<not> Option.is_none (process_point sample_params 10 (\<lambda>rp np. Some np) (sample_point 5) sample_narrowphase)"
    by code_simp
  then obtain np1 where p: "process_point sample_params 10 (\<lambda>rp np. Some np) (sample_point 5) sample_narrowphase = Some np1"
    by (auto simp: Option.is_none_def)
  have n: "next_entity sample_registry = 100" by (simp add: sample_registry_def)
  from inst m room c n have 1: "\<exists>r' d dm. create_contact_point sample_params 10 (sample_point 5) sample_registry = Some r' \<and>
      dirties r' 100 = Some d \<and> is_new_entity d \<and> (Contact_point, Created) \<in> changes d \<and>
      dirties r' 10 = Some dm \<and> (Contact_manifold, Updated) \<in> changes dm"
    by (metis (no_types, lifting))
  from inst d have 2: "\<exists>r' dm. destroy_contact_point 10 21 sample_registry = Some r' \<and>
      dirties r' 10 = Some dm \<and> (Contact_manifold, Updated) \<in> changes dm \<and>
      (Island_node_parent, Updated) \<in> changes dm"
    by (metis (no_types, lifting))
  from inst p have 3: "\<exists>np'. process_point sample_params 10 (\<lambda>rp np. Some np) (sample_point 5) sample_narrowphase = Some np' \<and>
      dirties (m_registry np') = dirties (m_registry sample_narrowphase)"
    by (metis (no_types, lifting))
  from 1 2 3 show ?thesis by blast
qed

text \<open>
  C3, as the claim states it, fails: body 5 of the tracked pair (1, 5) has no AABB, and
  after the destroy pass, and after the whole update, both entries of the pair are in
  the pair table and the relation entity 51 exists.
\<close>

theorem stale_pair_is_kept:
  "map_of (bp_aabbs (registry sample_broadphase)) 5 = None \<and>
   relations sample_broadphase (1, 5) = Some 51 \<and>
   map_of (bp_relations (registry sample_broadphase)) 51 = Some (1, 5) \<and>
   relations (destroy_pass sample_params sample_broadphase) (1, 5) = Some 51 \<and>
   relations (destroy_pass sample_params sample_broadphase) (5, 1) = Some 51 \<and>
   map_of (bp_relations (registry (destroy_pass sample_params sample_broadphase))) 51 = Some (1, 5) \<and>
   map_option (\<lambda>bp. (relations bp (1, 5), relations bp (5, 1), map_of (bp_relations (registry bp)) 51))
     (broadphase_update sample_params sample_broadphase) = Some (Some 51, Some 51, Some (1, 5))"
  by code_simp

theorem destroy_pass_missing_aabb_keeps_pair_witness:
  "map_of (bp_aabbs (registry sample_broadphase)) 5 = None \<and>
   distinct (map fst (bp_relations (registry sample_broadphase))) \<and>
   relations (destroy_pass sample_params sample_broadphase) (1, 5) = Some 51 \<and>
   relations (destroy_pass sample_params sample_broadphase) (5, 1) = Some 51 \<and>
   map_of (bp_relations (registry (destroy_pass sample_params sample_broadphase))) 51 = Some (1, 5)"
proof -
  have none: "map_of (bp_aabbs (registry sample_broadphase)) 5 = None"
    by (simp add: sample_broadphase_def)
  then have missing: "map_of (bp_aabbs (registry sample_broadphase)) 1 = None \<or>
                      map_of (bp_aabbs (registry sample_broadphase)) 5 = None" by simp
  have dist: "distinct (map fst (bp_relations (registry sample_broadphase)))"
    by (simp add: sample_broadphase_def)
  have t: "relations sample_broadphase (1, 5) = Some 51" "relations sample_broadphase (5, 1) = Some 51"
    "map_of (bp_relations (registry sample_broadphase)) 51 = Some (1, 5)"
    by (simp_all add: sample_broadphase_def)
  from destroy_pass_missing_aabb_keeps_pair [OF missing dist, of sample_params] none dist t
  show ?thesis by simp
qed




end
